theory Spec2Isabelle
  imports Main "HOL-Library.Option_ord" "HOL-Library.Product_Lexorder" "HOL-Library.Multiset"
begin

section \<open>Data model of the sync store\<close>

text \<open>
  The development follows \<open>SqliteSyncStore\<close> (the store class of the repository). Each
  table is a list of rows in storage order (the list position stands for SQLite's rowid or,
  for the two interval tables, for the autoincrement \<open>id\<close> column). Only the columns that a
  modelled statement reads, compares or writes are fields of the row records; the remaining
  header and payload columns are carried through every statement unchanged.

\<close>

type_synonym Hex = string

text \<open>
  Modelled from the spec: \<open>encodeAsText\<close> and \<open>decodeToBigInt\<close>
  (module \<open>utils/encoding\<close>, whose source is missing). A column of type
  \<open>BigIntText\<close> holds \<open>encodeAsText n\<close>, the decimal numeral of the
  non-negative integer \<open>n\<close> left-padded with zeros to a fixed width, so that the
  order of the texts is the order of the numbers and \<open>decodeToBigInt\<close> gives
  \<open>n\<close> back. The model holds the number \<open>n\<close> itself in such a column
  and compares numbers where SQL compares the texts. Arguments that the code encodes before
  use (block numbers, timestamps, interval bounds) are natural numbers for the same reason:
  the calls modelled are those whose arguments \<open>encodeAsText\<close> accepts.
  The encoding itself is given below with the width 79 that the spec chooses, and
  \<open>text_less\<close> is the bytewise order in which SQLite compares two text values;
  that the abstraction is sound is the content of \<open>encodeAsText_order\<close> and
  \<open>decodeToBigInt_encodeAsText\<close>.
\<close>

type_synonym BigIntText = nat

datatype encode_error = EncodeOverflow

definition digit_char :: "nat \<Rightarrow> char" where
  "digit_char d = char_of (48 + d)"

fun pad_decimal :: "nat \<Rightarrow> nat \<Rightarrow> string" where
  "pad_decimal 0 n = []"
| "pad_decimal (Suc w) n = digit_char (n div 10 ^ w) # pad_decimal w (n mod 10 ^ w)"

definition encodeAsText :: "int \<Rightarrow> encode_error + string" where
  "encodeAsText n =
     (if n < 0 \<or> 10 ^ 79 \<le> n then Inl EncodeOverflow else Inr (pad_decimal 79 (nat n)))"

fun parse_decimal :: "nat \<Rightarrow> string \<Rightarrow> nat" where
  "parse_decimal acc [] = acc"
| "parse_decimal acc (c # cs) = parse_decimal (10 * acc + (of_char c - 48)) cs"

definition decodeToBigInt :: "string \<Rightarrow> int" where
  "decodeToBigInt text = int (parse_decimal 0 text)"

fun text_less :: "string \<Rightarrow> string \<Rightarrow> bool" where
  "text_less [] [] = False"
| "text_less [] (y # ys) = True"
| "text_less (x # xs) [] = False"
| "text_less (x # xs) (y # ys) =
     ((of_char x :: nat) < of_char y \<or> (x = y \<and> text_less xs ys))"

record block_row =
  b_hash :: Hex
  b_chainId :: nat
  b_number :: BigIntText
  b_timestamp :: BigIntText

record transaction_row =
  t_hash :: Hex
  t_chainId :: nat
  t_blockHash :: Hex
  t_blockNumber :: BigIntText
  t_transactionIndex :: nat

record log_row =
  l_id :: string
  l_chainId :: nat
  l_address :: Hex
  l_blockHash :: Hex
  l_blockNumber :: BigIntText
  l_data :: Hex
  l_logIndex :: nat
  l_topic0 :: "Hex option"
  l_topic1 :: "Hex option"
  l_topic2 :: "Hex option"
  l_topic3 :: "Hex option"
  l_transactionHash :: Hex
  l_transactionIndex :: nat

text \<open>
  A row of \<open>logFilters\<close> is a fragment: it binds at most one value in each slot. The
  column \<open>id\<close> is not a field of the record; \<open>lf_id\<close> below computes it from the other
  columns.
\<close>

type_synonym logFilterId =
  "nat \<times> Hex option \<times> Hex option \<times> Hex option \<times> Hex option \<times> Hex option"

record logFilter_row =
  lf_chainId :: nat
  lf_address :: "Hex option"
  lf_topic0 :: "Hex option"
  lf_topic1 :: "Hex option"
  lf_topic2 :: "Hex option"
  lf_topic3 :: "Hex option"

text \<open>
  Modelled from the spec: the \<open>id\<close> that \<open>buildLogFilterFragments\<close>
  (module \<open>utils/fragments\<close>, whose source is missing) gives a fragment. It is a
  canonical rendering of \<open>(chainId, address, topic0, topic1, topic2, topic3)\<close>,
  determined by and determining that tuple; the model uses the tuple itself.
\<close>

definition lf_id :: "logFilter_row \<Rightarrow> logFilterId" where
  "lf_id f = (lf_chainId f, lf_address f, lf_topic0 f, lf_topic1 f, lf_topic2 f, lf_topic3 f)"

record logFilterInterval_row =
  lfi_logFilterId :: logFilterId
  lfi_startBlock :: BigIntText
  lfi_endBlock :: BigIntText

text \<open>
  \<open>childAddressLocation\<close> has the TypeScript type
  \<open>"topic1" | "topic2" | "topic3" | `offset${number}`\<close>: a tagged union written as a
  string. \<open>Offset K\<close> stands for the string \<open>"offset" + K\<close>, which the code takes apart
  with \<open>startsWith("offset")\<close> and \<open>Number(childAddressLocation.substring(6))\<close>.
\<close>

datatype childAddressLocation = Topic1 | Topic2 | Topic3 | Offset nat

type_synonym factoryId =
  "nat \<times> Hex \<times> Hex \<times> childAddressLocation
     \<times> Hex option \<times> Hex option \<times> Hex option \<times> Hex option"

record factory_row =
  fa_chainId :: nat
  fa_address :: Hex
  fa_eventSelector :: Hex
  fa_childAddressLocation :: childAddressLocation
  fa_topic0 :: "Hex option"
  fa_topic1 :: "Hex option"
  fa_topic2 :: "Hex option"
  fa_topic3 :: "Hex option"

text \<open>
  Modelled from the spec: the \<open>id\<close> that \<open>buildFactoryFragments\<close>
  (module \<open>utils/fragments\<close>, whose source is missing) gives a factory fragment,
  a canonical rendering of the tuple of its other columns; the model uses the tuple itself.
\<close>

definition fa_id :: "factory_row \<Rightarrow> factoryId" where
  "fa_id f = (fa_chainId f, fa_address f, fa_eventSelector f, fa_childAddressLocation f,
              fa_topic0 f, fa_topic1 f, fa_topic2 f, fa_topic3 f)"

record factoryLogFilterInterval_row =
  fi_factoryId :: factoryId
  fi_startBlock :: BigIntText
  fi_endBlock :: BigIntText

record rpcRequestResult_row =
  r_request :: string
  r_blockNumber :: BigIntText
  r_chainId :: nat
  r_result :: string

record store =
  blocks :: "block_row list"
  transactions :: "transaction_row list"
  logs :: "log_row list"
  logFilters :: "logFilter_row list"
  logFilterIntervals :: "logFilterInterval_row list"
  factories :: "factory_row list"
  factoryLogFilterIntervals :: "factoryLogFilterInterval_row list"
  rpcRequestResults :: "rpcRequestResult_row list"

definition empty_store :: store where
  "empty_store = \<lparr>blocks = [], transactions = [], logs = [], logFilters = [],
     logFilterIntervals = [], factories = [], factoryLogFilterIntervals = [],
     rpcRequestResults = []\<rparr>"

text \<open>
  The one failure that the modelled statements can raise on arguments of the right type:
  a common table expression \<open>( values ... )\<close> built by \<open>sql.join\<close> from an empty list
  has no row, which SQLite rejects when it prepares the statement.
\<close>

datatype error = SqliteSyntaxError

section \<open>Interval algebra\<close>

type_synonym interval = "nat \<times> nat"

text \<open>
  Modelled from the spec: the fold of \<open>intervalUnion\<close> (module
  \<open>utils/interval\<close>, whose source is missing) over intervals sorted by start.
  The next interval is merged into the current one while it starts at most one past its end:
  touching intervals (\<open>b + 1 = a'\<close>) merge.
\<close>

fun merge_into :: "interval \<Rightarrow> interval list \<Rightarrow> interval list" where
  "merge_into cur [] = [cur]"
| "merge_into (a, b) ((c, d) # rest) =
     (if c \<le> b + 1 then merge_into (a, max b d) rest
      else (a, b) # merge_into (c, d) rest)"

text \<open>
  Modelled from the spec: \<open>intervalUnion\<close> (module
  \<open>utils/interval\<close>, whose source is missing) takes closed integer intervals and
  returns the minimal list of disjoint, non-touching intervals with the same union. The
  model sorts by start and merges.
\<close>

definition intervalUnion :: "interval list \<Rightarrow> interval list" where
  "intervalUnion intervals =
     (case sort_key fst intervals of [] \<Rightarrow> [] | cur # rest \<Rightarrow> merge_into cur rest)"

text \<open>
  Modelled from the spec: the sweep of \<open>intervalIntersectionMany\<close> (module
  \<open>utils/interval\<close>, whose source is missing) over two lists in ascending order,
  with one index into each: the common part of the two current intervals is kept when there
  is one, and the list whose interval ends first moves on.
\<close>

fun sweep :: "interval list \<Rightarrow> interval list \<Rightarrow> interval list" where
  "sweep [] ys = []"
| "sweep (x # xs) [] = []"
| "sweep ((a, b) # xs) ((c, d) # ys) =
     (let rest = (if b < d then sweep xs ((c, d) # ys) else sweep ((a, b) # xs) ys)
      in if max a c \<le> min b d then (max a c, min b d) # rest else rest)"

text \<open>
  Modelled from the spec: the intersection of two lists that are in the form
  \<open>intervalUnion\<close> returns, returned in that form.
\<close>

definition intervalIntersection :: "interval list \<Rightarrow> interval list \<Rightarrow> interval list" where
  "intervalIntersection list1 list2 = intervalUnion (sweep list1 list2)"


text \<open>The block numbers an interval list covers.\<close>

definition covered :: "nat \<Rightarrow> interval list \<Rightarrow> bool" where
  "covered x intervals = list_ex (\<lambda>(a, b). a \<le> x \<and> x \<le> b) intervals"

text \<open>
  No two intervals of the list overlap or touch: whenever one comes before another in the
  list, it ends at least two below the other's start.
\<close>

definition disjoint_merged :: "interval list \<Rightarrow> bool" where
  "disjoint_merged intervals = sorted_wrt (\<lambda>x y. snd x + 1 < fst y) intervals"


section \<open>Fragment builder\<close>

text \<open>
  A slot of a criterion is absent (\<open>None\<close>), one value or an array of values. The optional
  \<open>topics\<close> array is a list; a missing array and a missing entry both read as \<open>null\<close>
  in every function modelled here, which is what \<open>topic_slot\<close> returns past the end.
\<close>

datatype 'a one_or_many = One 'a | Many "'a list"

record LogFilterCriteria =
  address :: "Hex one_or_many option"
  topics :: "Hex one_or_many option list"

record FactoryCriteria =
  fc_address :: Hex
  fc_eventSelector :: Hex
  fc_childAddressLocation :: childAddressLocation
  fc_topics :: "Hex one_or_many option list"

definition topic_slot :: "Hex one_or_many option list \<Rightarrow> nat \<Rightarrow> Hex one_or_many option" where
  "topic_slot ts idx = (if idx < length ts then ts ! idx else None)"

text \<open>
  Modelled from the spec: the values a slot contributes to the cartesian product of
  \<open>buildLogFilterFragments\<close>: \<open>null\<close> for an absent slot, the value,
  or the values of the array.
\<close>

definition slot_values :: "Hex one_or_many option \<Rightarrow> Hex option list" where
  "slot_values slot =
     (case slot of None \<Rightarrow> [None] | Some (One v) \<Rightarrow> [Some v] | Some (Many vs) \<Rightarrow> map Some vs)"

text \<open>
  Modelled from the spec: \<open>buildLogFilterFragments\<close> (module
  \<open>utils/fragments\<close>, whose source is missing) returns the cartesian product
  over the slots of the criterion, one fragment per combination, \<open>null\<close> kept
  for an absent slot.
\<close>

definition buildLogFilterFragments :: "nat \<Rightarrow> LogFilterCriteria \<Rightarrow> logFilter_row list" where
  "buildLogFilterFragments chainId criteria =
     concat (map (\<lambda>a. concat (map (\<lambda>t0. concat (map (\<lambda>t1. concat (map (\<lambda>t2. map (\<lambda>t3.
       \<lparr>lf_chainId = chainId, lf_address = a, lf_topic0 = t0, lf_topic1 = t1,
        lf_topic2 = t2, lf_topic3 = t3\<rparr>)
       (slot_values (topic_slot (topics criteria) 3)))
       (slot_values (topic_slot (topics criteria) 2))))
       (slot_values (topic_slot (topics criteria) 1))))
       (slot_values (topic_slot (topics criteria) 0))))
       (slot_values (address criteria)))"


section \<open>Sync store: ingestion\<close>

text \<open>
  \<open>rpcToSqliteBlock\<close>, \<open>rpcToSqliteTransaction\<close> and \<open>rpcToSqliteLog\<close> (in
  module \<open>./format\<close>, whose source is missing) turn an RPC object into a row. The model
  takes the row they return; the code then sets its \<open>chainId\<close>. An insert with
  \<open>onConflict(column).doNothing()\<close> leaves the table as it is when a row with that key is
  stored.
\<close>

definition insert_block :: "block_row \<Rightarrow> store \<Rightarrow> store" where
  "insert_block row s =
     (if list_ex (\<lambda>r. b_hash r = b_hash row) (blocks s) then s
      else s\<lparr>blocks := blocks s @ [row]\<rparr>)"

definition insert_transaction :: "transaction_row \<Rightarrow> store \<Rightarrow> store" where
  "insert_transaction row s =
     (if list_ex (\<lambda>r. t_hash r = t_hash row) (transactions s) then s
      else s\<lparr>transactions := transactions s @ [row]\<rparr>)"

definition insert_log :: "log_row \<Rightarrow> store \<Rightarrow> store" where
  "insert_log row s =
     (if list_ex (\<lambda>r. l_id r = l_id row) (logs s) then s
      else s\<lparr>logs := logs s @ [row]\<rparr>)"

text \<open>
  \<open>insert_raw\<close> is the block of three inserts with which the transactions of
  \<open>insertLogFilterInterval\<close>, \<open>insertFactoryLogFilterInterval\<close> and
  \<open>insertRealtimeBlock\<close> all begin: the block, then each transaction, then each log.
\<close>

definition insert_raw ::
    "nat \<Rightarrow> block_row \<Rightarrow> transaction_row list \<Rightarrow> log_row list \<Rightarrow> store \<Rightarrow> store" where
  "insert_raw chainId rpcBlock rpcTransactions rpcLogs s =
     (let s1 = insert_block (rpcBlock\<lparr>b_chainId := chainId\<rparr>) s;
          s2 = foldl (\<lambda>s rpcTransaction.
                 insert_transaction (rpcTransaction\<lparr>t_chainId := chainId\<rparr>) s) s1 rpcTransactions;
          s3 = foldl (\<lambda>s rpcLog. insert_log (rpcLog\<lparr>l_chainId := chainId\<rparr>) s) s2 rpcLogs
      in s3)"

text \<open>
  \<open>insertInto(...).values(fragment).onConflict(doUpdateSet(fragment))\<close>: the stored row
  with the fragment's id is overwritten by the fragment, or the fragment is added.
\<close>

definition upsert_logFilter :: "logFilter_row \<Rightarrow> store \<Rightarrow> store" where
  "upsert_logFilter fragment s =
     (if list_ex (\<lambda>r. lf_id r = lf_id fragment) (logFilters s)
      then s\<lparr>logFilters := map (\<lambda>r. if lf_id r = lf_id fragment then fragment else r)
                               (logFilters s)\<rparr>
      else s\<lparr>logFilters := logFilters s @ [fragment]\<rparr>)"

definition upsert_factory :: "factory_row \<Rightarrow> store \<Rightarrow> store" where
  "upsert_factory fragment s =
     (if list_ex (\<lambda>r. fa_id r = fa_id fragment) (factories s)
      then s\<lparr>factories := map (\<lambda>r. if fa_id r = fa_id fragment then fragment else r)
                              (factories s)\<rparr>
      else s\<lparr>factories := factories s @ [fragment]\<rparr>)"

text \<open>
  The private helper \<open>_insertLogFilterInterval\<close>: for every fragment of every filter, the
  fragment is upserted and one interval row is inserted. The callbacks under
  \<open>Promise.all\<close> issue their statements on the one connection of the transaction; the
  upserts touch \<open>logFilters\<close> only and the inserts \<open>logFilterIntervals\<close> only, each in
  fragment order, so the fold below reaches the same tables.
\<close>

definition interval_row_of :: "interval \<Rightarrow> logFilter_row \<Rightarrow> logFilterInterval_row" where
  "interval_row_of interval fragment =
     \<lparr>lfi_logFilterId = lf_id fragment, lfi_startBlock = fst interval,
      lfi_endBlock = snd interval\<rparr>"

definition insert_logFilterInterval_row :: "interval \<Rightarrow> store \<Rightarrow> logFilter_row \<Rightarrow> store" where
  "insert_logFilterInterval_row interval s logFilterFragment =
     (let s1 = upsert_logFilter logFilterFragment s
      in s1\<lparr>logFilterIntervals := logFilterIntervals s1 @
           [interval_row_of interval logFilterFragment]\<rparr>)"

definition private_insertLogFilterInterval ::
    "nat \<Rightarrow> LogFilterCriteria list \<Rightarrow> interval \<Rightarrow> store \<Rightarrow> store" where
  "private_insertLogFilterInterval chainId logFilters' interval s =
     (let logFilterFragments = concat (map (buildLogFilterFragments chainId) logFilters')
      in foldl (insert_logFilterInterval_row interval) s logFilterFragments)"

definition factory_interval_row_of ::
    "interval \<Rightarrow> factory_row \<Rightarrow> factoryLogFilterInterval_row" where
  "factory_interval_row_of interval fragment =
     \<lparr>fi_factoryId = fa_id fragment, fi_startBlock = fst interval,
      fi_endBlock = snd interval\<rparr>"

definition insert_factoryLogFilterInterval_row ::
    "interval \<Rightarrow> store \<Rightarrow> factory_row \<Rightarrow> store" where
  "insert_factoryLogFilterInterval_row interval s fragment =
     (let s1 = upsert_factory fragment s
      in s1\<lparr>factoryLogFilterIntervals := factoryLogFilterIntervals s1 @
           [factory_interval_row_of interval fragment]\<rparr>)"


definition insertLogFilterInterval ::
    "nat \<Rightarrow> LogFilterCriteria \<Rightarrow> block_row \<Rightarrow> transaction_row list \<Rightarrow> log_row list
       \<Rightarrow> interval \<Rightarrow> store \<Rightarrow> store" where
  "insertLogFilterInterval chainId logFilter rpcBlock rpcTransactions rpcLogs interval s =
     private_insertLogFilterInterval chainId [logFilter] interval
       (insert_raw chainId rpcBlock rpcTransactions rpcLogs s)"


definition insertRealtimeBlock ::
    "nat \<Rightarrow> block_row \<Rightarrow> transaction_row list \<Rightarrow> log_row list \<Rightarrow> store \<Rightarrow> store" where
  "insertRealtimeBlock chainId rpcBlock rpcTransactions rpcLogs s =
     insert_raw chainId rpcBlock rpcTransactions rpcLogs s"


section \<open>Sync store: coverage queries\<close>

text \<open>
  \<open>stored_intervals\<close> reads the intervals of the rows of one fragment, in storage order.

  The first half of \<open>getLogFilterIntervals\<close>, one transaction per fragment: upsert the
  fragment, delete its interval rows (\<open>returningAll\<close> hands them back, here read before
  the delete) and insert the rows of their \<open>intervalUnion\<close>. The
  transactions run one after the other on the single database connection, here in fragment
  order. \<open>Number(decodeToBigInt(...))\<close> is exact for block numbers below \<open>2^53\<close>.
\<close>

definition stored_intervals :: "store \<Rightarrow> logFilterId \<Rightarrow> interval list" where
  "stored_intervals s logFilterId =
     map (\<lambda>i. (lfi_startBlock i, lfi_endBlock i))
       (filter (\<lambda>r. lfi_logFilterId r = logFilterId) (logFilterIntervals s))"

definition merge_logFilterIntervals :: "store \<Rightarrow> logFilter_row \<Rightarrow> store" where
  "merge_logFilterIntervals s fragment =
     (let s1 = upsert_logFilter fragment s;
          logFilterId = lf_id fragment;
          existingIntervals = stored_intervals s1 logFilterId;
          s2 = s1\<lparr>logFilterIntervals :=
                 filter (\<lambda>r. lfi_logFilterId r \<noteq> logFilterId) (logFilterIntervals s1)\<rparr>;
          mergedIntervals = intervalUnion existingIntervals;
          mergedIntervalRows = map (\<lambda>interval. interval_row_of interval fragment) mergedIntervals
      in s2\<lparr>logFilterIntervals := logFilterIntervals s2 @ mergedIntervalRows\<rparr>)"







text \<open>
  \<open>getFactoryLogFilterIntervals\<close> has the same two halves on the tables \<open>factories\<close>
  and \<open>factoryLogFilterIntervals\<close>. Its join condition asks for equal \<open>address\<close>,
  \<open>eventSelector\<close> and \<open>childAddressLocation\<close>, and for each topic as above.
\<close>

definition stored_factory_intervals :: "store \<Rightarrow> factoryId \<Rightarrow> interval list" where
  "stored_factory_intervals s factoryId =
     map (\<lambda>i. (fi_startBlock i, fi_endBlock i))
       (filter (\<lambda>r. fi_factoryId r = factoryId) (factoryLogFilterIntervals s))"





section \<open>Reorg truncator\<close>

text \<open>
  The scalar subquery \<open>(select chainId from logFilters where id = logFilterId limit 1)\<close>.
\<close>

definition logFilter_chainId :: "store \<Rightarrow> logFilterId \<Rightarrow> nat option" where
  "logFilter_chainId s i = map_option lf_chainId (find (\<lambda>f. lf_id f = i) (logFilters s))"

definition factory_chainId :: "store \<Rightarrow> factoryId \<Rightarrow> nat option" where
  "factory_chainId s i = map_option fa_chainId (find (\<lambda>f. fa_id f = i) (factories s))"

definition deleteRealtimeData :: "nat \<Rightarrow> nat \<Rightarrow> store \<Rightarrow> store" where
  "deleteRealtimeData chainId fromBlock s =
     (let s1 = s\<lparr>blocks :=
            filter (\<lambda>r. \<not> (b_chainId r = chainId \<and> b_number r > fromBlock)) (blocks s)\<rparr>;
          s2 = s1\<lparr>transactions :=
            filter (\<lambda>r. \<not> (t_chainId r = chainId \<and> t_blockNumber r > fromBlock))
              (transactions s1)\<rparr>;
          s3 = s2\<lparr>logs :=
            filter (\<lambda>r. \<not> (l_chainId r = chainId \<and> l_blockNumber r > fromBlock)) (logs s2)\<rparr>;
          s4 = s3\<lparr>rpcRequestResults :=
            filter (\<lambda>r. \<not> (r_chainId r = chainId \<and> r_blockNumber r > fromBlock))
              (rpcRequestResults s3)\<rparr>;
          s5 = s4\<lparr>logFilterIntervals :=
            filter (\<lambda>r. \<not> (logFilter_chainId s4 (lfi_logFilterId r) = Some chainId
                           \<and> lfi_startBlock r > fromBlock))
              (logFilterIntervals s4)\<rparr>;
          s6 = s5\<lparr>logFilterIntervals :=
            map (\<lambda>r. if logFilter_chainId s5 (lfi_logFilterId r) = Some chainId
                          \<and> lfi_endBlock r > fromBlock
                       then r\<lparr>lfi_endBlock := fromBlock\<rparr> else r)
              (logFilterIntervals s5)\<rparr>;
          s7 = s6\<lparr>factoryLogFilterIntervals :=
            filter (\<lambda>r. \<not> (factory_chainId s6 (fi_factoryId r) = Some chainId
                           \<and> fi_startBlock r > fromBlock))
              (factoryLogFilterIntervals s6)\<rparr>;
          s8 = s7\<lparr>factoryLogFilterIntervals :=
            map (\<lambda>r. if factory_chainId s7 (fi_factoryId r) = Some chainId
                          \<and> fi_endBlock r > fromBlock
                       then r\<lparr>fi_endBlock := fromBlock\<rparr> else r)
              (factoryLogFilterIntervals s7)\<rparr>
      in s8)"

section \<open>Factory child-address derivation\<close>

text \<open>
  SQLite's \<open>substring(X, Y, Z)\<close> for \<open>Y \<ge> 1\<close>: the \<open>Z\<close> characters of \<open>X\<close> from the
  \<open>Y\<close>-th on (counting from 1), fewer when the string ends earlier. Every call below has
  \<open>Y \<ge> 27\<close>.
\<close>

definition sql_substring :: "string \<Rightarrow> nat \<Rightarrow> nat \<Rightarrow> string" where
  "sql_substring x y z = take z (drop (y - 1) x)"

text \<open>
  \<open>buildFactoryChildAddressSelectExpression\<close> returns an SQL expression over a row of
  \<open>logs\<close>; the model is the value of that expression on a row. \<open>'0x' || NULL\<close> is
  \<open>NULL\<close>, here \<open>None\<close>.
\<close>

definition sql_ref_topic :: "childAddressLocation \<Rightarrow> log_row \<Rightarrow> Hex option" where
  "sql_ref_topic loc row =
     (case loc of Topic1 \<Rightarrow> l_topic1 row | Topic2 \<Rightarrow> l_topic2 row
      | Topic3 \<Rightarrow> l_topic3 row | Offset _ \<Rightarrow> None)"

definition buildFactoryChildAddressSelectExpression ::
    "childAddressLocation \<Rightarrow> log_row \<Rightarrow> Hex option" where
  "buildFactoryChildAddressSelectExpression childAddressLocation row =
     (case childAddressLocation of
        Offset childAddressOffset \<Rightarrow>
          (let start = 2 + 12 * 2 + childAddressOffset * 2 + 1;
               length = 20 * 2
           in Some (''0x'' @ sql_substring (l_data row) start length))
      | _ \<Rightarrow>
          (let start = 2 + 12 * 2 + 1;
               length = 20 * 2
           in map_option (\<lambda>topic. ''0x'' @ sql_substring topic start length)
                (sql_ref_topic childAddressLocation row)))"

text \<open>The \<open>n\<close> bytes of a \<open>0x\<close>-prefixed hex string from byte \<open>k\<close> on, as hex digits.\<close>

definition hex_bytes :: "Hex \<Rightarrow> nat \<Rightarrow> nat \<Rightarrow> string" where
  "hex_bytes h k n = take (2 * n) (drop (2 + 2 * k) h)"

text \<open>
  \<open>getFactoryChildAddresses\<close>. The base query selects \<open>(childAddress, blockNumber)\<close> from
  the factory's logs up to \<open>upToBlockNumber\<close>; it has no \<open>order by\<close>, so the rows come in
  storage order. Each round of the loop runs the query with \<open>limit pageSize\<close> and, once a
  cursor is set, with \<open>blockNumber > cursor\<close>. The cursor is an encoded block number, a
  non-empty string, so \<open>if (cursor)\<close> only asks whether it is set.

  The generator is modelled by the pages it yields within a number of rounds, and whether
  it has finished by then (\<open>True\<close>) or is still running (\<open>False\<close>).
\<close>

definition childAddress_baseQuery ::
    "nat \<Rightarrow> nat \<Rightarrow> FactoryCriteria \<Rightarrow> store \<Rightarrow> (Hex option \<times> BigIntText) list" where
  "childAddress_baseQuery chainId upToBlockNumber factory s =
     map (\<lambda>l. (buildFactoryChildAddressSelectExpression (fc_childAddressLocation factory) l,
               l_blockNumber l))
       (filter (\<lambda>l. l_chainId l = chainId \<and> l_address l = fc_address factory
                     \<and> l_topic0 l = Some (fc_eventSelector factory)
                     \<and> l_blockNumber l \<le> upToBlockNumber) (logs s))"

fun childAddress_loop ::
    "nat \<Rightarrow> (Hex option \<times> BigIntText) list \<Rightarrow> nat \<Rightarrow> BigIntText option
       \<Rightarrow> Hex option list list \<times> bool" where
  "childAddress_loop 0 baseQuery pageSize cursor = ([], False)"
| "childAddress_loop (Suc rounds) baseQuery pageSize cursor =
     (let batch = take pageSize
                    (case cursor of None \<Rightarrow> baseQuery
                     | Some c \<Rightarrow> filter (\<lambda>row. snd row > c) baseQuery);
          cursor' = (case batch of [] \<Rightarrow> cursor | _ \<Rightarrow> Some (snd (last batch)));
          yielded = (if length batch > 0 then [map fst batch] else [])
      in if length batch < pageSize then (yielded, True)
         else (let (pages, finished) = childAddress_loop rounds baseQuery pageSize cursor'
               in (yielded @ pages, finished)))"

definition getFactoryChildAddresses ::
    "nat \<Rightarrow> nat \<Rightarrow> nat \<Rightarrow> FactoryCriteria \<Rightarrow> nat \<Rightarrow> store \<Rightarrow> Hex option list list \<times> bool" where
  "getFactoryChildAddresses rounds chainId upToBlockNumber factory pageSize s =
     childAddress_loop rounds (childAddress_baseQuery chainId upToBlockNumber factory s)
       pageSize None"

section \<open>Event iterator\<close>

record logFilter_source =
  ls_name :: string
  ls_chainId :: nat
  ls_criteria :: LogFilterCriteria
  ls_fromBlock :: "nat option"
  ls_toBlock :: "nat option"
  ls_includeEventSelectors :: "Hex list option"

record factory_source =
  fs_name :: string
  fs_chainId :: nat
  fs_criteria :: FactoryCriteria
  fs_fromBlock :: "nat option"
  fs_toBlock :: "nat option"
  fs_includeEventSelectors :: "Hex list option"

record request =
  fromTimestamp :: nat
  toTimestamp :: nat
  rq_logFilters :: "logFilter_source list"
  rq_factories :: "factory_source list"
  pageSize :: nat

text \<open>
  A row of \<open>logs\<close> left-joined with its block and its transaction and cross-joined with a
  row of \<open>eventSources\<close>. A missing block or transaction leaves its columns \<open>NULL\<close>.
\<close>

record joined_row =
  eventSource_name :: string
  j_log :: log_row
  j_block :: "block_row option"
  j_transaction :: "transaction_row option"

definition block_timestamp :: "joined_row \<Rightarrow> BigIntText option" where
  "block_timestamp row = map_option b_timestamp (j_block row)"

definition block_number :: "joined_row \<Rightarrow> BigIntText option" where
  "block_number row = map_option b_number (j_block row)"

text \<open>A comparison of SQL is true only when neither side is \<open>NULL\<close>.\<close>

definition cmpr :: "nat option \<Rightarrow> (nat \<Rightarrow> nat \<Rightarrow> bool) \<Rightarrow> nat option \<Rightarrow> bool" where
  "cmpr column op v = (case (column, v) of (Some a, Some b) \<Rightarrow> op a b | _ \<Rightarrow> False)"

text \<open>\<open>if (x)\<close> on an optional number: \<open>undefined\<close> and \<open>0\<close> are falsy.\<close>

definition truthy :: "nat option \<Rightarrow> bool" where
  "truthy x = (case x of None \<Rightarrow> False | Some n \<Rightarrow> n \<noteq> 0)"

definition log_topic :: "nat \<Rightarrow> log_row \<Rightarrow> Hex option" where
  "log_topic idx l =
     (if idx = 0 then l_topic0 l else if idx = 1 then l_topic1 l
      else if idx = 2 then l_topic2 l else l_topic3 l)"

text \<open>
  The comparison pushed for a slot that is set: an array of length one collapses to its
  element, another array becomes the \<open>or\<close> of the equalities (false for no element).
\<close>

definition slot_cmpr :: "Hex option \<Rightarrow> Hex one_or_many \<Rightarrow> bool" where
  "slot_cmpr column raw =
     (case raw of
        One v \<Rightarrow> column = Some v
      | Many vs \<Rightarrow> (case vs of [v] \<Rightarrow> column = Some v
                    | _ \<Rightarrow> list_ex (\<lambda>a. column = Some a) vs))"

definition block_bound_cmprs :: "nat option \<Rightarrow> nat option \<Rightarrow> joined_row \<Rightarrow> bool list" where
  "block_bound_cmprs fromBlock toBlock row =
     (if truthy fromBlock then [cmpr (block_number row) (\<ge>) fromBlock] else [])
     @ (if truthy toBlock then [cmpr (block_number row) (\<le>) toBlock] else [])"

definition buildLogFilterCmprs :: "logFilter_source \<Rightarrow> joined_row \<Rightarrow> bool list" where
  "buildLogFilterCmprs logFilter row =
     [eventSource_name row = ls_name logFilter,
      l_chainId (j_log row) = ls_chainId logFilter]
     @ (case address (ls_criteria logFilter) of
          None \<Rightarrow> []
        | Some raw \<Rightarrow> [slot_cmpr (Some (l_address (j_log row))) raw])
     @ concat (map (\<lambda>idx.
          case topic_slot (topics (ls_criteria logFilter)) idx of
            None \<Rightarrow> []
          | Some raw \<Rightarrow> [slot_cmpr (log_topic idx (j_log row)) raw]) [0, 1, 2, 3])
     @ block_bound_cmprs (ls_fromBlock logFilter) (ls_toBlock logFilter) row"

definition buildFactoryCmprs :: "store \<Rightarrow> factory_source \<Rightarrow> joined_row \<Rightarrow> bool list" where
  "buildFactoryCmprs s factory row =
     [eventSource_name row = fs_name factory,
      l_chainId (j_log row) = fs_chainId factory,
      List.member
        (map (buildFactoryChildAddressSelectExpression
                (fc_childAddressLocation (fs_criteria factory)))
           (filter (\<lambda>l. l_chainId l = fs_chainId factory
                         \<and> l_address l = fc_address (fs_criteria factory)
                         \<and> l_topic0 l = Some (fc_eventSelector (fs_criteria factory)))
              (logs s)))
        (Some (l_address (j_log row)))]
     @ block_bound_cmprs (fs_fromBlock factory) (fs_toBlock factory) row"

definition includeEventSelectors_cmprs :: "Hex list option \<Rightarrow> joined_row \<Rightarrow> bool list" where
  "includeEventSelectors_cmprs includeEventSelectors row =
     (case includeEventSelectors of
        None \<Rightarrow> []
      | Some ts \<Rightarrow> [list_ex (\<lambda>t. l_topic0 (j_log row) = Some t) ts])"

text \<open>\<open>and\<close> and \<open>or\<close> of a list of comparisons: true and false for the empty list.\<close>

definition and_cmprs :: "bool list \<Rightarrow> bool" where
  "and_cmprs cmprs = list_all (\<lambda>c. c) cmprs"

definition or_cmprs :: "bool list \<Rightarrow> bool" where
  "or_cmprs cmprs = list_ex (\<lambda>c. c) cmprs"

definition eventSourceNames :: "request \<Rightarrow> string list" where
  "eventSourceNames rq = map ls_name (rq_logFilters rq) @ map fs_name (rq_factories rq)"

definition baseQuery :: "store \<Rightarrow> request \<Rightarrow> joined_row list" where
  "baseQuery s rq =
     filter (\<lambda>row. cmpr (block_timestamp row) (\<ge>) (Some (fromTimestamp rq))
                   \<and> cmpr (block_timestamp row) (\<le>) (Some (toTimestamp rq)))
       (concat (map (\<lambda>l. map (\<lambda>name.
            \<lparr>eventSource_name = name, j_log = l,
             j_block = find (\<lambda>b. b_hash b = l_blockHash l) (blocks s),
             j_transaction = find (\<lambda>t. t_hash t = l_transactionHash l) (transactions s)\<rparr>)
          (eventSourceNames rq)) (logs s)))"

text \<open>The \<open>where\<close> clause of the event pages, with the \<open>includeEventSelectors\<close> clause.\<close>

definition included :: "store \<Rightarrow> request \<Rightarrow> joined_row \<Rightarrow> bool" where
  "included s rq row =
     or_cmprs
       (map (\<lambda>logFilter. and_cmprs (buildLogFilterCmprs logFilter row
               @ includeEventSelectors_cmprs (ls_includeEventSelectors logFilter) row))
          (rq_logFilters rq)
        @ map (\<lambda>factory. and_cmprs (buildFactoryCmprs s factory row
               @ includeEventSelectors_cmprs (fs_includeEventSelectors factory) row))
          (rq_factories rq))"

text \<open>The \<open>where\<close> clause of the counts, without the \<open>includeEventSelectors\<close> clause.\<close>

definition counted :: "store \<Rightarrow> request \<Rightarrow> joined_row \<Rightarrow> bool" where
  "counted s rq row =
     or_cmprs
       (map (\<lambda>logFilter. and_cmprs (buildLogFilterCmprs logFilter row)) (rq_logFilters rq)
        @ map (\<lambda>factory. and_cmprs (buildFactoryCmprs s factory row)) (rq_factories rq))"

text \<open>
  The sort key of \<open>order by blocks.timestamp, logs.chainId, blocks.number, logs.logIndex\<close>.
  \<open>NULL\<close> sorts first in SQLite, as \<open>None\<close> does here; rows that tie are kept in the order
  of the join.
\<close>

type_synonym cursor = "BigIntText option \<times> nat \<times> BigIntText option \<times> nat"

definition orderBy_key :: "joined_row \<Rightarrow> cursor" where
  "orderBy_key row =
     (block_timestamp row, l_chainId (j_log row), block_number row, l_logIndex (j_log row))"

definition includedLogsBaseQuery :: "store \<Rightarrow> request \<Rightarrow> joined_row list" where
  "includedLogsBaseQuery s rq = sort_key orderBy_key (filter (included s rq) (baseQuery s rq))"

text \<open>The nested \<open>and\<close>/\<open>or\<close> chain added to the query once a cursor is set.\<close>

definition cursor_cmprs :: "cursor \<Rightarrow> joined_row \<Rightarrow> bool" where
  "cursor_cmprs cursor row =
     (case cursor of (timestamp, chainId, blockNumber, logIndex) \<Rightarrow>
        cmpr (block_timestamp row) (\<ge>) timestamp
        \<and> (cmpr (block_timestamp row) (>) timestamp
           \<or> (l_chainId (j_log row) \<ge> chainId
              \<and> (l_chainId (j_log row) > chainId
                 \<or> (cmpr (block_number row) (\<ge>) blockNumber
                    \<and> (cmpr (block_number row) (>) blockNumber
                       \<or> l_logIndex (j_log row) > logIndex))))))"

definition requestedLogs_query :: "store \<Rightarrow> request \<Rightarrow> cursor option \<Rightarrow> joined_row list" where
  "requestedLogs_query s rq cursor =
     take (pageSize rq)
       (case cursor of
          None \<Rightarrow> includedLogsBaseQuery s rq
        | Some c \<Rightarrow>
            sort_key orderBy_key
              (filter (cursor_cmprs c) (filter (included s rq) (baseQuery s rq))))"

text \<open>
  The counts: one row per group \<open>(eventSource_name, topic0)\<close> with the number of rows
  of the group.
\<close>

type_synonym eventCount = "string \<times> Hex option \<times> nat"

definition eventCountsQuery :: "store \<Rightarrow> request \<Rightarrow> eventCount list" where
  "eventCountsQuery s rq =
     (let rows = filter (counted s rq) (baseQuery s rq);
          groups = remdups (map (\<lambda>row. (eventSource_name row, l_topic0 (j_log row))) rows)
      in map (\<lambda>(name, topic0).
                (name, topic0,
                 length (filter (\<lambda>row. eventSource_name row = name
                                        \<and> l_topic0 (j_log row) = topic0) rows)))
           groups)"

text \<open>
  A page. The event objects are built from the rows one for one (decoded numbers, packed
  topics, the transaction variant), so \<open>events\<close> holds the rows themselves.
\<close>

record metadata =
  pageEndsAtTimestamp :: nat
  counts :: "eventCount list"

record page =
  events :: "joined_row list"
  metadata :: metadata

text \<open>
  The loop of \<open>getLogEvents\<close>, on a store that no other call writes to in between. Each
  round runs the query, moves the cursor to the last row when there is one, yields one page
  and stops when the page has fewer than \<open>pageSize\<close> rows. As for the child addresses, the
  generator is modelled by the pages it yields within a number of rounds and whether it has
  finished by then.
\<close>

definition next_cursor :: "cursor option \<Rightarrow> joined_row list \<Rightarrow> cursor option" where
  "next_cursor cursor requestedLogs =
     (case requestedLogs of [] \<Rightarrow> cursor
      | _ \<Rightarrow> Some (orderBy_key (last requestedLogs)))"

definition yielded_page :: "request \<Rightarrow> eventCount list \<Rightarrow> joined_row list \<Rightarrow> page" where
  "yielded_page rq eventCounts requestedLogs =
     \<lparr>events = requestedLogs,
      metadata =
        \<lparr>pageEndsAtTimestamp =
           (case requestedLogs of [] \<Rightarrow> toTimestamp rq
            | _ \<Rightarrow> (case block_timestamp (last requestedLogs) of
                       None \<Rightarrow> toTimestamp rq | Some t \<Rightarrow> t)),
         counts = eventCounts\<rparr>\<rparr>"

fun getLogEvents_loop ::
    "nat \<Rightarrow> store \<Rightarrow> request \<Rightarrow> eventCount list \<Rightarrow> cursor option \<Rightarrow> page list \<times> bool" where
  "getLogEvents_loop 0 s rq eventCounts cursor = ([], False)"
| "getLogEvents_loop (Suc rounds) s rq eventCounts cursor =
     (let requestedLogs = requestedLogs_query s rq cursor;
          cursor' = next_cursor cursor requestedLogs;
          yielded = yielded_page rq eventCounts requestedLogs
      in if length requestedLogs < pageSize rq then ([yielded], True)
         else (let (pages, finished) = getLogEvents_loop rounds s rq eventCounts cursor'
               in (yielded # pages, finished)))"

definition getLogEvents :: "nat \<Rightarrow> store \<Rightarrow> request \<Rightarrow> error + (page list \<times> bool)" where
  "getLogEvents rounds s rq =
     (if eventSourceNames rq = [] then Inl SqliteSyntaxError
      else Inr (getLogEvents_loop rounds s rq (eventCountsQuery s rq) None))"



section \<open>Example data\<close>

definition mk_block :: "nat \<Rightarrow> Hex \<Rightarrow> nat \<Rightarrow> nat \<Rightarrow> block_row" where
  "mk_block c h n t = \<lparr>b_hash = h, b_chainId = c, b_number = n, b_timestamp = t\<rparr>"

definition mk_log ::
    "nat \<Rightarrow> string \<Rightarrow> Hex \<Rightarrow> Hex \<Rightarrow> nat \<Rightarrow> nat \<Rightarrow> Hex option \<Rightarrow> Hex \<Rightarrow> log_row" where
  "mk_log c i a bh bn li t0 d =
     \<lparr>l_id = i, l_chainId = c, l_address = a, l_blockHash = bh, l_blockNumber = bn,
      l_data = d, l_logIndex = li, l_topic0 = t0, l_topic1 = None, l_topic2 = None,
      l_topic3 = None, l_transactionHash = ''0xt'', l_transactionIndex = 0\<rparr>"

text \<open>Scenario S5: twelve zero bytes, then twenty bytes \<open>aa\<close>.\<close>

definition data_S5 :: Hex where
  "data_S5 = ''0x'' @ ''000000000000000000000000'' @ ''aaaaaaaaaaaaaaaaaaaaaaaaaaaaaaaaaaaaaaaa''"

definition log_S5 :: log_row where
  "log_S5 = mk_log 1 ''0xb1-0'' ''0xfac'' ''0xb1'' 1 0 (Some ''0xe0'') data_S5"

text \<open>Scenario S4: blocks 1 to 10 of chain 1 and the interval \<open>[1, 10]\<close> of one filter.\<close>

definition filterA :: LogFilterCriteria where
  "filterA = \<lparr>address = None, topics = [Some (One ''0xA'')]\<rparr>"



definition fragmentA :: logFilter_row where
  "fragmentA = \<lparr>lf_chainId = 1, lf_address = None, lf_topic0 = Some ''0xA'',
     lf_topic1 = None, lf_topic2 = None, lf_topic3 = None\<rparr>"


definition store_S4 :: store where
  "store_S4 = empty_store
     \<lparr>blocks := map (\<lambda>n. mk_block 1 (''0xb'' @ replicate n CHR ''1'') n (100 + n))
                  [1, 2, 3, 4, 5, 6, 7, 8, 9, 10],
      logFilters := [fragmentA],
      logFilterIntervals := [interval_row_of (1, 10) fragmentA]\<rparr>"

text \<open>
  Two logs of the factory \<open>0xfac\<close> in block 5, announcing the children \<open>0xaa...\<close>
  and \<open>0xbb...\<close> in \<open>topic1\<close>.
\<close>

definition factory_C5 :: FactoryCriteria where
  "factory_C5 = \<lparr>fc_address = ''0xfac'', fc_eventSelector = ''0xe0'',
     fc_childAddressLocation = Topic1, fc_topics = []\<rparr>"

definition topic_aa :: Hex where
  "topic_aa = ''0x000000000000000000000000aaaaaaaaaaaaaaaaaaaaaaaaaaaaaaaaaaaaaaaa''"

definition topic_bb :: Hex where
  "topic_bb = ''0x000000000000000000000000bbbbbbbbbbbbbbbbbbbbbbbbbbbbbbbbbbbbbbbb''"

definition store_C5 :: store where
  "store_C5 = empty_store\<lparr>logs :=
     [(mk_log 1 ''0xb5-0'' ''0xfac'' ''0xb5'' 5 0 (Some ''0xe0'') ''0x'')
        \<lparr>l_topic1 := Some topic_aa\<rparr>,
      (mk_log 1 ''0xb5-1'' ''0xfac'' ''0xb5'' 5 1 (Some ''0xe0'') ''0x'')
        \<lparr>l_topic1 := Some topic_bb\<rparr>]\<rparr>"

text \<open>
  Scenario S3: two logs of the contract \<open>0xc\<close> in block 7 of chain 1 (timestamp 100),
  with selectors \<open>0xX\<close> and \<open>0xY\<close>, and two event sources that select them.
\<close>

definition source_one :: logFilter_source where
  "source_one = \<lparr>ls_name = ''one'', ls_chainId = 1,
     ls_criteria = \<lparr>address = Some (One ''0xc''), topics = []\<rparr>,
     ls_fromBlock = None, ls_toBlock = None, ls_includeEventSelectors = None\<rparr>"


definition log_X :: log_row where
  "log_X = mk_log 1 ''0xb7-0'' ''0xc'' ''0xb7'' 7 0 (Some ''0xX'') ''0x''"

definition log_Y :: log_row where
  "log_Y = mk_log 1 ''0xb7-1'' ''0xc'' ''0xb7'' 7 1 (Some ''0xY'') ''0x''"

definition store_S3 :: store where
  "store_S3 = empty_store\<lparr>blocks := [mk_block 1 ''0xb7'' 7 100], logs := [log_X, log_Y]\<rparr>"

definition request_S3 :: request where
  "request_S3 = \<lparr>fromTimestamp = 0, toTimestamp = 200, rq_logFilters = [source_one],
     rq_factories = [], pageSize = 1\<rparr>"

definition row_of :: "string \<Rightarrow> log_row \<Rightarrow> joined_row" where
  "row_of name l = \<lparr>eventSource_name = name, j_log = l,
     j_block = Some (mk_block 1 ''0xb7'' 7 100), j_transaction = None\<rparr>"






section \<open>Basic facts\<close>

lemma logFilter_chainId_update [simp]:
  "logFilter_chainId (s\<lparr>blocks := a\<rparr>) = logFilter_chainId s"
  "logFilter_chainId (s\<lparr>transactions := b\<rparr>) = logFilter_chainId s"
  "logFilter_chainId (s\<lparr>logs := c\<rparr>) = logFilter_chainId s"
  "logFilter_chainId (s\<lparr>rpcRequestResults := d\<rparr>) = logFilter_chainId s"
  "logFilter_chainId (s\<lparr>logFilterIntervals := e\<rparr>) = logFilter_chainId s"
  "logFilter_chainId (s\<lparr>factoryLogFilterIntervals := f\<rparr>) = logFilter_chainId s"
  by (simp_all add: logFilter_chainId_def fun_eq_iff)

lemma factory_chainId_update [simp]:
  "factory_chainId (s\<lparr>blocks := a\<rparr>) = factory_chainId s"
  "factory_chainId (s\<lparr>transactions := b\<rparr>) = factory_chainId s"
  "factory_chainId (s\<lparr>logs := c\<rparr>) = factory_chainId s"
  "factory_chainId (s\<lparr>rpcRequestResults := d\<rparr>) = factory_chainId s"
  "factory_chainId (s\<lparr>logFilterIntervals := e\<rparr>) = factory_chainId s"
  "factory_chainId (s\<lparr>factoryLogFilterIntervals := f\<rparr>) = factory_chainId s"
  by (simp_all add: factory_chainId_def fun_eq_iff)

subsection \<open>Raw inserts\<close>

lemma lf_id_inject: "lf_id (a :: logFilter_row) = lf_id b \<Longrightarrow> a = b"
  by (cases a, cases b) (simp add: lf_id_def)

lemma insert_block_fields [simp]:
  "transactions (insert_block r s) = transactions s" "logs (insert_block r s) = logs s"
  "logFilters (insert_block r s) = logFilters s"
  "logFilterIntervals (insert_block r s) = logFilterIntervals s"
  "factories (insert_block r s) = factories s"
  "factoryLogFilterIntervals (insert_block r s) = factoryLogFilterIntervals s"
  "rpcRequestResults (insert_block r s) = rpcRequestResults s"
  by (simp_all add: insert_block_def)

lemma insert_transaction_fields [simp]:
  "blocks (insert_transaction r s) = blocks s" "logs (insert_transaction r s) = logs s"
  "logFilters (insert_transaction r s) = logFilters s"
  "logFilterIntervals (insert_transaction r s) = logFilterIntervals s"
  "factories (insert_transaction r s) = factories s"
  "factoryLogFilterIntervals (insert_transaction r s) = factoryLogFilterIntervals s"
  "rpcRequestResults (insert_transaction r s) = rpcRequestResults s"
  by (simp_all add: insert_transaction_def)

lemma insert_log_fields [simp]:
  "blocks (insert_log r s) = blocks s" "transactions (insert_log r s) = transactions s"
  "logFilters (insert_log r s) = logFilters s"
  "logFilterIntervals (insert_log r s) = logFilterIntervals s"
  "factories (insert_log r s) = factories s"
  "factoryLogFilterIntervals (insert_log r s) = factoryLogFilterIntervals s"
  "rpcRequestResults (insert_log r s) = rpcRequestResults s"
  by (simp_all add: insert_log_def)


lemma present_iff: "list_ex (\<lambda>x. k x = v) rows \<longleftrightarrow> v \<in> k ` set rows"
  by (induction rows) auto

lemma insert_block_keys:
  "b_hash ` set (blocks (insert_block r s)) = insert (b_hash r) (b_hash ` set (blocks s))"
  by (auto simp: insert_block_def present_iff)

lemma insert_block_present:
  "b_hash r \<in> b_hash ` set (blocks s) \<Longrightarrow> insert_block r s = s"
  by (auto simp: insert_block_def present_iff)

lemma insert_transaction_keys:
  "t_hash ` set (transactions (insert_transaction r s))
     = insert (t_hash r) (t_hash ` set (transactions s))"
  by (auto simp: insert_transaction_def present_iff)

lemma insert_transaction_present:
  "t_hash r \<in> t_hash ` set (transactions s) \<Longrightarrow> insert_transaction r s = s"
  by (auto simp: insert_transaction_def present_iff)

lemma insert_log_keys:
  "l_id ` set (logs (insert_log r s)) = insert (l_id r) (l_id ` set (logs s))"
  by (auto simp: insert_log_def present_iff)

lemma insert_log_present:
  "l_id r \<in> l_id ` set (logs s) \<Longrightarrow> insert_log r s = s"
  by (auto simp: insert_log_def present_iff)

lemma foldl_insert_transaction_fields [simp]:
  "blocks (foldl (\<lambda>s t. insert_transaction (f t) s) s ts) = blocks s"
  "logs (foldl (\<lambda>s t. insert_transaction (f t) s) s ts) = logs s"
  "logFilters (foldl (\<lambda>s t. insert_transaction (f t) s) s ts) = logFilters s"
  "logFilterIntervals (foldl (\<lambda>s t. insert_transaction (f t) s) s ts) = logFilterIntervals s"
  "factories (foldl (\<lambda>s t. insert_transaction (f t) s) s ts) = factories s"
  "factoryLogFilterIntervals (foldl (\<lambda>s t. insert_transaction (f t) s) s ts)
     = factoryLogFilterIntervals s"
  "rpcRequestResults (foldl (\<lambda>s t. insert_transaction (f t) s) s ts) = rpcRequestResults s"
  by (induction ts arbitrary: s) simp_all

lemma foldl_insert_log_fields [simp]:
  "blocks (foldl (\<lambda>s l. insert_log (g l) s) s ls) = blocks s"
  "transactions (foldl (\<lambda>s l. insert_log (g l) s) s ls) = transactions s"
  "logFilters (foldl (\<lambda>s l. insert_log (g l) s) s ls) = logFilters s"
  "logFilterIntervals (foldl (\<lambda>s l. insert_log (g l) s) s ls) = logFilterIntervals s"
  "factories (foldl (\<lambda>s l. insert_log (g l) s) s ls) = factories s"
  "factoryLogFilterIntervals (foldl (\<lambda>s l. insert_log (g l) s) s ls)
     = factoryLogFilterIntervals s"
  "rpcRequestResults (foldl (\<lambda>s l. insert_log (g l) s) s ls) = rpcRequestResults s"
  by (induction ls arbitrary: s) simp_all

lemma foldl_insert_transaction_keys:
  "t_hash ` set (transactions (foldl (\<lambda>s t. insert_transaction (f t) s) s ts))
     = t_hash ` set (transactions s) \<union> (t_hash \<circ> f) ` set ts"
  by (induction ts arbitrary: s) (auto simp: insert_transaction_keys)

lemma foldl_insert_transaction_present:
  "(t_hash \<circ> f) ` set ts \<subseteq> t_hash ` set (transactions s)
     \<Longrightarrow> foldl (\<lambda>s t. insert_transaction (f t) s) s ts = s"
  by (induction ts arbitrary: s) (simp_all add: insert_transaction_present)

lemma foldl_insert_log_keys:
  "l_id ` set (logs (foldl (\<lambda>s l. insert_log (g l) s) s ls))
     = l_id ` set (logs s) \<union> (l_id \<circ> g) ` set ls"
  by (induction ls arbitrary: s) (auto simp: insert_log_keys)

lemma foldl_insert_log_present:
  "(l_id \<circ> g) ` set ls \<subseteq> l_id ` set (logs s)
     \<Longrightarrow> foldl (\<lambda>s l. insert_log (g l) s) s ls = s"
  by (induction ls arbitrary: s) (simp_all add: insert_log_present)

lemma insert_raw_fields [simp]:
  "logFilters (insert_raw c b ts ls s) = logFilters s"
  "logFilterIntervals (insert_raw c b ts ls s) = logFilterIntervals s"
  "factories (insert_raw c b ts ls s) = factories s"
  "factoryLogFilterIntervals (insert_raw c b ts ls s) = factoryLogFilterIntervals s"
  "rpcRequestResults (insert_raw c b ts ls s) = rpcRequestResults s"
  by (simp_all add: insert_raw_def Let_def)

lemma insert_raw_idem:
  "insert_raw c b ts ls (insert_raw c b ts ls s) = insert_raw c b ts ls s"
proof -
  let ?f = "\<lambda>t. t\<lparr>t_chainId := c\<rparr>" and ?g = "\<lambda>l. l\<lparr>l_chainId := c\<rparr>"
  let ?s1 = "insert_block (b\<lparr>b_chainId := c\<rparr>) s"
  let ?s2 = "foldl (\<lambda>s t. insert_transaction (?f t) s) ?s1 ts"
  let ?s3 = "foldl (\<lambda>s l. insert_log (?g l) s) ?s2 ls"
  have s3: "insert_raw c b ts ls s = ?s3"
    by (simp add: insert_raw_def Let_def)
  have "b_hash (b\<lparr>b_chainId := c\<rparr>) \<in> b_hash ` set (blocks ?s3)"
    by (simp add: insert_block_keys)
  then have 1: "insert_block (b\<lparr>b_chainId := c\<rparr>) ?s3 = ?s3"
    by (rule insert_block_present)
  have "(t_hash \<circ> ?f) ` set ts \<subseteq> t_hash ` set (transactions ?s3)"
    by (simp add: foldl_insert_transaction_keys)
  then have 2: "foldl (\<lambda>s t. insert_transaction (?f t) s) ?s3 ts = ?s3"
    by (rule foldl_insert_transaction_present)
  have "(l_id \<circ> ?g) ` set ls \<subseteq> l_id ` set (logs ?s3)"
    by (simp add: foldl_insert_log_keys)
  then have 3: "foldl (\<lambda>s l. insert_log (?g l) s) ?s3 ls = ?s3"
    by (rule foldl_insert_log_present)
  have "insert_raw c b ts ls ?s3 = ?s3"
    by (simp only: insert_raw_def Let_def 1 2 3)
  then show ?thesis by (simp only: s3)
qed

text \<open>The raw inserts read and write the tables of blocks, transactions and logs only.\<close>

lemma insert_raw_raw_tables:
  assumes "blocks s' = blocks s" "transactions s' = transactions s" "logs s' = logs s"
  shows "blocks (insert_raw c b ts ls s') = blocks (insert_raw c b ts ls s)
    \<and> transactions (insert_raw c b ts ls s') = transactions (insert_raw c b ts ls s)
    \<and> logs (insert_raw c b ts ls s') = logs (insert_raw c b ts ls s)"
proof -
  have t: "transactions (foldl (\<lambda>s t. insert_transaction (f t) s) x ts)
      = transactions (foldl (\<lambda>s t. insert_transaction (f t) s) y ts)"
    if "transactions x = transactions y" for x y :: store and f
    using that
  proof (induction ts arbitrary: x y)
    case Nil
    then show ?case by simp
  next
    case (Cons a ts)
    have "transactions (insert_transaction (f a) x) = transactions (insert_transaction (f a) y)"
      using Cons.prems by (simp add: insert_transaction_def)
    from Cons.IH [OF this] show ?case by simp
  qed
  have l: "logs (foldl (\<lambda>s l. insert_log (g l) s) x ls)
      = logs (foldl (\<lambda>s l. insert_log (g l) s) y ls)"
    if "logs x = logs y" for x y :: store and g
    using that
  proof (induction ls arbitrary: x y)
    case Nil
    then show ?case by simp
  next
    case (Cons a ls)
    have "logs (insert_log (g a) x) = logs (insert_log (g a) y)"
      using Cons.prems by (simp add: insert_log_def)
    from Cons.IH [OF this] show ?case by simp
  qed
  have b: "blocks (insert_block r s') = blocks (insert_block r s)" for r
    using assms(1) by (simp add: insert_block_def)
  let ?f = "\<lambda>t. t\<lparr>t_chainId := c\<rparr>" and ?g = "\<lambda>l. l\<lparr>l_chainId := c\<rparr>"
  let ?b = "b\<lparr>b_chainId := c\<rparr>"
  have 1: "blocks (insert_raw c b ts ls x) = blocks (insert_block ?b x)"
    and 2: "transactions (insert_raw c b ts ls x)
        = transactions (foldl (\<lambda>s t. insert_transaction (?f t) s) (insert_block ?b x) ts)"
    and 3: "logs (insert_raw c b ts ls x)
        = logs (foldl (\<lambda>s l. insert_log (?g l) s)
            (foldl (\<lambda>s t. insert_transaction (?f t) s) (insert_block ?b x) ts) ls)"
    for x
    by (simp_all add: insert_raw_def Let_def)
  have t': "transactions (insert_block ?b s') = transactions (insert_block ?b s)"
    using assms(2) by simp
  have l': "logs (foldl (\<lambda>s t. insert_transaction (?f t) s) (insert_block ?b s') ts)
      = logs (foldl (\<lambda>s t. insert_transaction (?f t) s) (insert_block ?b s) ts)"
    using assms(3) by simp
  show ?thesis
    unfolding 1 2 3 using b t [OF t'] l [OF l'] by blast
qed

subsection \<open>Fragment upserts and interval rows\<close>

lemma upsert_logFilter_fields [simp]:
  "blocks (upsert_logFilter f s) = blocks s"
  "transactions (upsert_logFilter f s) = transactions s"
  "logs (upsert_logFilter f s) = logs s"
  "logFilterIntervals (upsert_logFilter f s) = logFilterIntervals s"
  "factories (upsert_logFilter f s) = factories s"
  "factoryLogFilterIntervals (upsert_logFilter f s) = factoryLogFilterIntervals s"
  "rpcRequestResults (upsert_logFilter f s) = rpcRequestResults s"
  by (simp_all add: upsert_logFilter_def)

lemma upsert_replace_id:
  "map (\<lambda>r. if lf_id r = lf_id f then f else r) rows = rows"
  by (rule map_idI) (auto dest: lf_id_inject)

lemma logFilters_upsert:
  "logFilters (upsert_logFilter f s) =
     (if f \<in> set (logFilters s) then logFilters s else logFilters s @ [f])"
proof -
  have "list_ex (\<lambda>r. lf_id r = lf_id f) (logFilters s) \<longleftrightarrow> f \<in> set (logFilters s)"
    by (auto simp: list_ex_iff dest: lf_id_inject)
  then show ?thesis
    by (simp add: upsert_logFilter_def upsert_replace_id)
qed

lemma insert_logFilterInterval_row_fields [simp]:
  "blocks (insert_logFilterInterval_row iv s f) = blocks s"
  "transactions (insert_logFilterInterval_row iv s f) = transactions s"
  "logs (insert_logFilterInterval_row iv s f) = logs s"
  "factories (insert_logFilterInterval_row iv s f) = factories s"
  "factoryLogFilterIntervals (insert_logFilterInterval_row iv s f) = factoryLogFilterIntervals s"
  "rpcRequestResults (insert_logFilterInterval_row iv s f) = rpcRequestResults s"
  "logFilters (insert_logFilterInterval_row iv s f) = logFilters (upsert_logFilter f s)"
  "logFilterIntervals (insert_logFilterInterval_row iv s f)
     = logFilterIntervals s @ [interval_row_of iv f]"
  by (simp_all add: insert_logFilterInterval_row_def Let_def)

lemma foldl_insert_rows_fields [simp]:
  "blocks (foldl (insert_logFilterInterval_row iv) s fs) = blocks s"
  "transactions (foldl (insert_logFilterInterval_row iv) s fs) = transactions s"
  "logs (foldl (insert_logFilterInterval_row iv) s fs) = logs s"
  "factories (foldl (insert_logFilterInterval_row iv) s fs) = factories s"
  "factoryLogFilterIntervals (foldl (insert_logFilterInterval_row iv) s fs)
     = factoryLogFilterIntervals s"
  "rpcRequestResults (foldl (insert_logFilterInterval_row iv) s fs) = rpcRequestResults s"
  "logFilterIntervals (foldl (insert_logFilterInterval_row iv) s fs)
     = logFilterIntervals s @ map (interval_row_of iv) fs"
  by (induction fs arbitrary: s) simp_all

lemma foldl_insert_rows_logFilters_set:
  "set (logFilters (foldl (insert_logFilterInterval_row iv) s fs)) = set (logFilters s) \<union> set fs"
  by (induction fs arbitrary: s) (auto simp: logFilters_upsert)

lemma foldl_insert_rows_logFilters_present:
  "set fs \<subseteq> set (logFilters s)
     \<Longrightarrow> logFilters (foldl (insert_logFilterInterval_row iv) s fs) = logFilters s"
  by (induction fs arbitrary: s) (simp_all add: logFilters_upsert)

lemma logFilters_foldl_cong:
  "logFilters s' = logFilters s
     \<Longrightarrow> logFilters (foldl (insert_logFilterInterval_row iv) s' fs)
         = logFilters (foldl (insert_logFilterInterval_row iv) s fs)"
proof (induction fs arbitrary: s s')
  case Nil
  then show ?case by simp
next
  case (Cons f fs)
  have "logFilters (insert_logFilterInterval_row iv s' f)
      = logFilters (insert_logFilterInterval_row iv s f)"
    using Cons.prems by (simp add: logFilters_upsert)
  from Cons.IH [OF this] show ?case by simp
qed

subsection \<open>Event iterator: congruence\<close>

lemma block_bound_cmprs_zero:
  "block_bound_cmprs (Some 0) t row = block_bound_cmprs None t row"
  "block_bound_cmprs f (Some 0) row = block_bound_cmprs f None row"
  by (simp_all add: block_bound_cmprs_def truthy_def)

lemma getLogEvents_cong:
  assumes "eventSourceNames rq' = eventSourceNames rq"
    and "fromTimestamp rq' = fromTimestamp rq" and "toTimestamp rq' = toTimestamp rq"
    and "pageSize rq' = pageSize rq"
    and "\<And>row. included s rq' row = included s rq row"
    and "\<And>row. counted s rq' row = counted s rq row"
  shows "getLogEvents k s rq' = getLogEvents k s rq"
proof -
  have b: "baseQuery s rq' = baseQuery s rq"
    using assms by (simp add: baseQuery_def)
  have i: "included s rq' = included s rq" and c: "counted s rq' = counted s rq"
    using assms by auto
  have q: "requestedLogs_query s rq' = requestedLogs_query s rq"
    by (auto simp: requestedLogs_query_def includedLogsBaseQuery_def b i assms(4) fun_eq_iff
        split: option.split)
  have e: "eventCountsQuery s rq' = eventCountsQuery s rq"
    by (simp add: eventCountsQuery_def b c)
  have y: "yielded_page rq' cs rows = yielded_page rq cs rows" for cs rows
    by (simp add: yielded_page_def assms(3) cong: list.case_cong option.case_cong)
  have "getLogEvents_loop k s rq' cs cur = getLogEvents_loop k s rq cs cur" for cs cur
    by (induction k arbitrary: cur) (simp_all add: q y assms(4) Let_def)
  then show ?thesis
    using assms(1) by (simp add: getLogEvents_def e)
qed

subsection \<open>Interval algebra\<close>

lemma covered_iff: "covered x l \<longleftrightarrow> (\<exists>(a, b) \<in> set l. a \<le> x \<and> x \<le> b)"
  by (simp add: covered_def list_ex_iff)

lemma covered_Nil [simp]: "\<not> covered x []"
  by (simp add: covered_def)

lemma covered_Cons [simp]: "covered x ((a, b) # l) \<longleftrightarrow> (a \<le> x \<and> x \<le> b) \<or> covered x l"
  by (simp add: covered_def)

lemma covered_append [simp]: "covered x (l @ l') \<longleftrightarrow> covered x l \<or> covered x l'"
  by (simp add: covered_def)

lemma covered_set_eq: "set l = set l' \<Longrightarrow> covered x l = covered x l'"
  by (simp add: covered_iff)

lemma merge_into_covered:
  "sorted (map fst (cur # rest))
     \<Longrightarrow> covered x (merge_into cur rest) \<longleftrightarrow> covered x (cur # rest)"
proof (induction cur rest rule: merge_into.induct)
  case (1 cur)
  then show ?case by simp
next
  case (2 a b c d rest)
  show ?case
  proof (cases "c \<le> b + 1")
    case True
    have "sorted (map fst ((a, max b d) # rest))"
      using "2.prems" by auto
    with "2.IH"(1) True
    have "covered x (merge_into (a, max b d) rest) \<longleftrightarrow> covered x ((a, max b d) # rest)"
      by simp
    moreover have "a \<le> c" using "2.prems" by simp
    ultimately show ?thesis using True by auto
  next
    case False
    have "sorted (map fst ((c, d) # rest))"
      using "2.prems" by simp
    with "2.IH"(2) False show ?thesis by simp
  qed
qed

lemma merge_into_starts:
  "fst ` set (merge_into cur rest) \<subseteq> fst ` set (cur # rest)"
proof (induction cur rest rule: merge_into.induct)
  case (1 cur)
  then show ?case by simp
next
  case (2 a b c d rest)
  then show ?case by (cases "c \<le> b + 1") auto
qed

lemma merge_into_disjoint:
  "sorted (map fst (cur # rest)) \<Longrightarrow> disjoint_merged (merge_into cur rest)"
proof (induction cur rest rule: merge_into.induct)
  case (1 cur)
  then show ?case by (simp add: disjoint_merged_def)
next
  case (2 a b c d rest)
  show ?case
  proof (cases "c \<le> b + 1")
    case True
    have "sorted (map fst ((a, max b d) # rest))"
      using "2.prems" by auto
    with "2.IH"(1) True show ?thesis by simp
  next
    case False
    have s: "sorted (map fst ((c, d) # rest))"
      using "2.prems" by simp
    with "2.IH"(2) False have tl: "disjoint_merged (merge_into (c, d) rest)" by simp
    have "b + 1 < fst y" if "y \<in> set (merge_into (c, d) rest)" for y
    proof -
      have "fst y \<in> fst ` set ((c, d) # rest)"
        using that merge_into_starts [of "(c, d)" rest] by blast
      then have "c \<le> fst y" using s by auto
      with False show ?thesis by simp
    qed
    with tl False show ?thesis
      by (auto simp: disjoint_merged_def)
  qed
qed

lemma intervalUnion_covered [simp]: "covered x (intervalUnion l) \<longleftrightarrow> covered x l"
proof (cases "sort_key fst l")
  case Nil
  then have "l = []" by (metis length_sort list.size(3) length_0_conv)
  then show ?thesis by (simp add: intervalUnion_def)
next
  case (Cons cur rest)
  have "sorted (map fst (cur # rest))"
    using sorted_sort_key [of fst l] Cons by simp
  then have "covered x (merge_into cur rest) \<longleftrightarrow> covered x (cur # rest)"
    by (rule merge_into_covered)
  also have "\<dots> \<longleftrightarrow> covered x l"
    by (rule covered_set_eq) (metis Cons set_sort)
  finally show ?thesis by (simp add: intervalUnion_def Cons)
qed

lemma intervalUnion_disjoint [simp]: "disjoint_merged (intervalUnion l)"
proof (cases "sort_key fst l")
  case Nil
  then show ?thesis by (simp add: intervalUnion_def disjoint_merged_def)
next
  case (Cons cur rest)
  have "sorted (map fst (cur # rest))"
    using sorted_sort_key [of fst l] Cons by simp
  then show ?thesis
    by (simp add: intervalUnion_def Cons merge_into_disjoint)
qed






lemma intervalIntersection_disjoint [simp]: "disjoint_merged (intervalIntersection l1 l2)"
  by (simp add: intervalIntersection_def)




subsection \<open>Merging the interval rows of a fragment\<close>

lemma stored_intervals_update [simp]:
  "stored_intervals (s\<lparr>logFilters := a\<rparr>) = stored_intervals s"
  by (simp add: stored_intervals_def fun_eq_iff)

lemma stored_intervals_upsert [simp]:
  "stored_intervals (upsert_logFilter f s) = stored_intervals s"
  by (simp add: stored_intervals_def fun_eq_iff)


lemma merge_fields [simp]:
  "blocks (merge_logFilterIntervals s f) = blocks s"
  "transactions (merge_logFilterIntervals s f) = transactions s"
  "logs (merge_logFilterIntervals s f) = logs s"
  "factories (merge_logFilterIntervals s f) = factories s"
  "factoryLogFilterIntervals (merge_logFilterIntervals s f) = factoryLogFilterIntervals s"
  "rpcRequestResults (merge_logFilterIntervals s f) = rpcRequestResults s"
  "logFilters (merge_logFilterIntervals s f) = logFilters (upsert_logFilter f s)"
  by (simp_all add: merge_logFilterIntervals_def Let_def)


lemma foldl_merge_fields [simp]:
  "blocks (foldl merge_logFilterIntervals s fs) = blocks s"
  "transactions (foldl merge_logFilterIntervals s fs) = transactions s"
  "logs (foldl merge_logFilterIntervals s fs) = logs s"
  "factories (foldl merge_logFilterIntervals s fs) = factories s"
  "factoryLogFilterIntervals (foldl merge_logFilterIntervals s fs) = factoryLogFilterIntervals s"
  "rpcRequestResults (foldl merge_logFilterIntervals s fs) = rpcRequestResults s"
  by (induction fs arbitrary: s) simp_all






subsection \<open>The coverage query\<close>


lemma find_logFilter_None:
  "find (\<lambda>lf. lf_id lf = k) rows = None \<longleftrightarrow> (\<forall>lf \<in> set rows. lf_id lf \<noteq> k)"
  by (auto simp: find_None_iff)







subsection \<open>The result of the coverage query\<close>









subsection \<open>Event iterator: the cursor\<close>






subsection \<open>Event iterator: the loop\<close>


lemma events_yielded_page [simp]: "events (yielded_page rq cs rows) = rows"
  by (simp add: yielded_page_def)

lemma counts_yielded_page [simp]: "counts (metadata (yielded_page rq cs rows)) = cs"
  by (simp add: yielded_page_def)




subsection \<open>Event iterator: termination and completeness\<close>







subsection \<open>Event iterator: the counts\<close>






subsection \<open>The factory tables\<close>

lemma fa_id_inject: "fa_id (a :: factory_row) = fa_id b \<Longrightarrow> a = b"
  by (cases a, cases b) (simp add: fa_id_def)

lemma upsert_factory_fields [simp]:
  "blocks (upsert_factory f s) = blocks s"
  "transactions (upsert_factory f s) = transactions s"
  "logs (upsert_factory f s) = logs s"
  "logFilters (upsert_factory f s) = logFilters s"
  "logFilterIntervals (upsert_factory f s) = logFilterIntervals s"
  "factoryLogFilterIntervals (upsert_factory f s) = factoryLogFilterIntervals s"
  "rpcRequestResults (upsert_factory f s) = rpcRequestResults s"
  by (simp_all add: upsert_factory_def)

lemma insert_factoryLogFilterInterval_row_fields [simp]:
  "logFilters (insert_factoryLogFilterInterval_row iv s f) = logFilters s"
  "logFilterIntervals (insert_factoryLogFilterInterval_row iv s f) = logFilterIntervals s"
  "factoryLogFilterIntervals (insert_factoryLogFilterInterval_row iv s f)
     = factoryLogFilterIntervals s @ [factory_interval_row_of iv f]"
  by (simp_all add: insert_factoryLogFilterInterval_row_def Let_def)

lemma foldl_insert_factory_rows_fields [simp]:
  "logFilters (foldl (insert_factoryLogFilterInterval_row iv) s fs) = logFilters s"
  "logFilterIntervals (foldl (insert_factoryLogFilterInterval_row iv) s fs) = logFilterIntervals s"
  "factoryLogFilterIntervals (foldl (insert_factoryLogFilterInterval_row iv) s fs)
     = factoryLogFilterIntervals s @ map (factory_interval_row_of iv) fs"
  by (induction fs arbitrary: s) simp_all

lemma stored_factory_intervals_upsert [simp]:
  "stored_factory_intervals (upsert_factory f s) = stored_factory_intervals s"
  by (simp add: stored_factory_intervals_def fun_eq_iff)








subsection \<open>The text encoding of big integers keeps their order\<close>

lemma of_char_digit: "d < 10 \<Longrightarrow> (of_char (digit_char d) :: nat) = 48 + d"
  by (simp add: digit_char_def)

lemma digit_char_inj:
  "d < 10 \<Longrightarrow> e < 10 \<Longrightarrow> digit_char d = digit_char e \<longleftrightarrow> d = e"
  by (metis of_char_digit add_left_cancel)

lemma less_div_mod:
  fixes n m k :: nat
  assumes "0 < k"
  shows "n < m \<longleftrightarrow> n div k < m div k \<or> (n div k = m div k \<and> n mod k < m mod k)"
proof -
  have n: "n = k * (n div k) + n mod k" and m: "m = k * (m div k) + m mod k" by simp_all
  have nk: "n mod k < k" using assms by simp
  show ?thesis
  proof (cases "n div k < m div k")
    case True
    then have "Suc (n div k) \<le> m div k" by simp
    then have "k * Suc (n div k) \<le> k * (m div k)" by (rule mult_le_mono2)
    then have "n < m"
      using n m nk
      by (metis add_less_cancel_left less_le_trans mult_Suc_right add.commute trans_le_add1)
    then show ?thesis using True by simp
  next
    case False
    show ?thesis
    proof (cases "n div k = m div k")
      case True
      then show ?thesis using n m by (metis add_less_cancel_left less_irrefl)
    next
      case differ: False
      then have "m div k < n div k" using False by simp
      then have "\<not> n < m" by (meson div_le_mono less_imp_le not_le)
      then show ?thesis using False differ by simp
    qed
  qed
qed

lemma text_less_pad_decimal:
  "n < 10 ^ w \<Longrightarrow> m < 10 ^ w
     \<Longrightarrow> text_less (pad_decimal w n) (pad_decimal w m) \<longleftrightarrow> n < m"
proof (induction w arbitrary: n m)
  case 0
  then show ?case by simp
next
  case (Suc w)
  have dn: "n div 10 ^ w < 10" and dm: "m div 10 ^ w < 10"
    using Suc.prems by (simp_all add: less_mult_imp_div_less mult.commute)
  have IH: "text_less (pad_decimal w (n mod 10 ^ w)) (pad_decimal w (m mod 10 ^ w))
      \<longleftrightarrow> n mod 10 ^ w < m mod 10 ^ w"
    by (rule Suc.IH) simp_all
  show ?case
    using dn dm IH less_div_mod [of "10 ^ w" n m]
    by (simp add: of_char_digit digit_char_inj)
qed

lemma parse_pad_decimal:
  "n < 10 ^ w \<Longrightarrow> parse_decimal acc (pad_decimal w n) = acc * 10 ^ w + n"
proof (induction w arbitrary: n acc)
  case 0
  then show ?case by simp
next
  case (Suc w)
  have dn: "n div 10 ^ w < 10"
    using Suc.prems by (simp add: less_mult_imp_div_less mult.commute)
  have "parse_decimal acc (pad_decimal (Suc w) n)
      = parse_decimal (10 * acc + n div 10 ^ w) (pad_decimal w (n mod 10 ^ w))"
    using dn by (simp add: of_char_digit)
  also have "\<dots> = (10 * acc + n div 10 ^ w) * 10 ^ w + n mod 10 ^ w"
    by (rule Suc.IH) simp
  also have "\<dots> = acc * 10 ^ Suc w + n"
    by (simp add: algebra_simps)
  finally show ?case .
qed

lemma encodeAsText_accepts:
  "(\<exists>text. encodeAsText n = Inr text) \<longleftrightarrow> 0 \<le> n \<and> n < 10 ^ 79"
  by (auto simp: encodeAsText_def)

lemma encodeAsText_order:
  assumes "encodeAsText n = Inr a" and "encodeAsText m = Inr b"
  shows "text_less a b \<longleftrightarrow> n < m"
proof -
  have n: "0 \<le> n" "n < 10 ^ 79" and a: "a = pad_decimal 79 (nat n)"
    using assms(1) by (auto simp: encodeAsText_def split: if_splits)
  have m: "0 \<le> m" "m < 10 ^ 79" and b: "b = pad_decimal 79 (nat m)"
    using assms(2) by (auto simp: encodeAsText_def split: if_splits)
  have "nat n < 10 ^ 79" "nat m < 10 ^ 79"
    using n m by (simp_all add: nat_less_iff)
  then have "text_less a b \<longleftrightarrow> nat n < nat m"
    unfolding a b by (rule text_less_pad_decimal)
  also have "\<dots> \<longleftrightarrow> n < m"
    using n(1) m(1) by arith
  finally show ?thesis .
qed

lemma decodeToBigInt_encodeAsText:
  assumes "encodeAsText n = Inr a"
  shows "decodeToBigInt a = n"
proof -
  have n: "0 \<le> n" "n < 10 ^ 79" and a: "a = pad_decimal 79 (nat n)"
    using assms by (auto simp: encodeAsText_def split: if_splits)
  have "nat n < 10 ^ 79" using n by (simp add: nat_less_iff)
  then have "parse_decimal 0 a = 0 * 10 ^ 79 + nat n"
    unfolding a by (rule parse_pad_decimal)
  then show ?thesis using n by (simp add: decodeToBigInt_def)
qed
section \<open>Claims\<close>

subsection \<open>C1: order and completeness of the event pages\<close>




subsection \<open>C2: when interval rows are merged\<close>




subsection \<open>C3: reorg truncation\<close>

text \<open>
  C3: after \<open>deleteRealtimeData chainId pivot\<close> the store holds no block, transaction, log
  or cached RPC result of that chain with a block number above the pivot, and every row of
  \<open>logFilterIntervals\<close> and \<open>factoryLogFilterIntervals\<close> that belongs to a fragment of
  that chain has \<open>startBlock \<le> pivot\<close> and \<open>endBlock \<le> pivot\<close>: the rows of the chain
  that start past the pivot are deleted and those that end past it have \<open>endBlock\<close> set
  to the pivot.
\<close>

theorem C3_deleteRealtimeData:
  "(\<forall>r \<in> set (blocks (deleteRealtimeData c p s)). b_chainId r = c \<longrightarrow> b_number r \<le> p)
   \<and> (\<forall>r \<in> set (transactions (deleteRealtimeData c p s)).
         t_chainId r = c \<longrightarrow> t_blockNumber r \<le> p)
   \<and> (\<forall>r \<in> set (logs (deleteRealtimeData c p s)). l_chainId r = c \<longrightarrow> l_blockNumber r \<le> p)
   \<and> (\<forall>r \<in> set (rpcRequestResults (deleteRealtimeData c p s)).
         r_chainId r = c \<longrightarrow> r_blockNumber r \<le> p)
   \<and> (\<forall>r \<in> set (logFilterIntervals (deleteRealtimeData c p s)).
         logFilter_chainId (deleteRealtimeData c p s) (lfi_logFilterId r) = Some c \<longrightarrow>
           lfi_startBlock r \<le> p \<and> lfi_endBlock r \<le> p)
   \<and> (\<forall>r \<in> set (factoryLogFilterIntervals (deleteRealtimeData c p s)).
         factory_chainId (deleteRealtimeData c p s) (fi_factoryId r) = Some c \<longrightarrow>
           fi_startBlock r \<le> p \<and> fi_endBlock r \<le> p)
   \<and> logFilterIntervals (deleteRealtimeData c p s)
       = map (\<lambda>r. if logFilter_chainId s (lfi_logFilterId r) = Some c \<and> lfi_endBlock r > p
                  then r\<lparr>lfi_endBlock := p\<rparr> else r)
           (filter (\<lambda>r. \<not> (logFilter_chainId s (lfi_logFilterId r) = Some c
                           \<and> lfi_startBlock r > p)) (logFilterIntervals s))
   \<and> factoryLogFilterIntervals (deleteRealtimeData c p s)
       = map (\<lambda>r. if factory_chainId s (fi_factoryId r) = Some c \<and> fi_endBlock r > p
                  then r\<lparr>fi_endBlock := p\<rparr> else r)
           (filter (\<lambda>r. \<not> (factory_chainId s (fi_factoryId r) = Some c
                           \<and> fi_startBlock r > p)) (factoryLogFilterIntervals s))"
  by (auto simp: deleteRealtimeData_def Let_def)

text \<open>
  Scenario S4 as an instance: truncating at 6 leaves the blocks 1 to 6 and the interval
  \<open>[1, 6]\<close>.
\<close>

theorem C3_deleteRealtimeData_witness:
  "map b_number (blocks (deleteRealtimeData 1 6 store_S4)) = [1, 2, 3, 4, 5, 6]
   \<and> logFilterIntervals (deleteRealtimeData 1 6 store_S4) = [interval_row_of (1, 6) fragmentA]
   \<and> logFilter_chainId (deleteRealtimeData 1 6 store_S4) (lf_id fragmentA) = Some 1"
proof -
  have b: "map b_number (blocks (deleteRealtimeData 1 6 store_S4)) = [1, 2, 3, 4, 5, 6]"
    by (simp add: deleteRealtimeData_def Let_def store_S4_def empty_store_def mk_block_def)
  have i: "logFilterIntervals (deleteRealtimeData 1 6 store_S4)
       = [interval_row_of (1, 6) fragmentA]"
    by (simp add: deleteRealtimeData_def Let_def store_S4_def empty_store_def
        logFilter_chainId_def fragmentA_def lf_id_def interval_row_of_def)
  have c: "logFilter_chainId (deleteRealtimeData 1 6 store_S4) (lf_id fragmentA) = Some 1"
    by (simp add: deleteRealtimeData_def Let_def store_S4_def empty_store_def
        logFilter_chainId_def fragmentA_def lf_id_def)
  show ?thesis using C3_deleteRealtimeData [of 1 6 store_S4] b i c by blast
qed

subsection \<open>C4: coverage of a filter\<close>




subsection \<open>C5: pages of factory child addresses\<close>

text \<open>
  C5 says that no matching log's child address is omitted across the pages. The cursor of
  \<open>getFactoryChildAddresses\<close> is the block number of the last row alone, and the next
  round asks for \<open>blockNumber > cursor\<close>. With the two factory logs of block 5 and
  \<open>pageSize = 1\<close>, the first round yields the child of the first log and moves the cursor
  to 5; the second round finds no row above 5 and ends the iteration: the child of the second
  log is never yielded, in whatever order the two rows are stored.
\<close>

theorem C5_same_block_child_omitted:
  "childAddress_baseQuery 1 10 factory_C5 store_C5
       = [(Some ''0xaaaaaaaaaaaaaaaaaaaaaaaaaaaaaaaaaaaaaaaa'', 5),
          (Some ''0xbbbbbbbbbbbbbbbbbbbbbbbbbbbbbbbbbbbbbbbb'', 5)]
   \<and> getFactoryChildAddresses (Suc (Suc n)) 1 10 factory_C5 1 store_C5
       = ([[Some ''0xaaaaaaaaaaaaaaaaaaaaaaaaaaaaaaaaaaaaaaaa'']], True)"
proof -
  have base: "childAddress_baseQuery 1 10 factory_C5 store_C5
       = [(Some ''0xaaaaaaaaaaaaaaaaaaaaaaaaaaaaaaaaaaaaaaaa'', 5),
          (Some ''0xbbbbbbbbbbbbbbbbbbbbbbbbbbbbbbbbbbbbbbbb'', 5)]"
    by (simp add: childAddress_baseQuery_def store_C5_def empty_store_def mk_log_def
        factory_C5_def buildFactoryChildAddressSelectExpression_def sql_ref_topic_def
        sql_substring_def topic_aa_def topic_bb_def)
  have "childAddress_loop (Suc (Suc n)) [(a, 5), (b, 5)] 1 None = ([[a]], True)" for a b
    by simp
  then show ?thesis
    unfolding getFactoryChildAddresses_def base by simp
qed

subsection \<open>C6: child address at an offset\<close>

text \<open>
  C6, as stated, says that for \<open>offset0\<close> the child address is made of the data bytes
  0 through 19. On the data of scenario S5 (twelve zero bytes, then twenty bytes \<open>aa\<close>) the
  expression yields the twenty bytes \<open>aa\<close>, which are bytes 12 through 31, and not the
  first twenty bytes.
\<close>

theorem C6_offset0_counterexample:
  "buildFactoryChildAddressSelectExpression (Offset 0) log_S5
     = Some ''0xaaaaaaaaaaaaaaaaaaaaaaaaaaaaaaaaaaaaaaaa''
   \<and> buildFactoryChildAddressSelectExpression (Offset 0) log_S5
     \<noteq> Some (''0x'' @ hex_bytes data_S5 0 20)"
  by (simp add: buildFactoryChildAddressSelectExpression_def sql_substring_def
      log_S5_def mk_log_def data_S5_def hex_bytes_def)

text \<open>
  C6, amended: for \<open>offset<K>\<close> the derived child address is \<open>0x\<close> followed by the hex
  digits of the 20 data bytes starting at byte \<open>K + 12\<close> (the low 20 bytes of the 32-byte
  word at byte \<open>K\<close>), copied unchanged from the stored data; when the data holds at least
  \<open>K + 32\<close> bytes this is a string of 42 characters.
\<close>

theorem C6_offset_child_address:
  "buildFactoryChildAddressSelectExpression (Offset K) row
     = Some (''0x'' @ hex_bytes (l_data row) (K + 12) 20)
   \<and> (2 + 2 * (K + 32) \<le> length (l_data row) \<longrightarrow>
        length (''0x'' @ hex_bytes (l_data row) (K + 12) 20) = 42)
   \<and> set (hex_bytes (l_data row) (K + 12) 20) \<subseteq> set (l_data row)"
proof -
  have "2 + 12 * 2 + K * 2 + 1 - 1 = 2 + 2 * (K + 12)" by simp
  then have "sql_substring (l_data row) (2 + 12 * 2 + K * 2 + 1) (20 * 2)
      = hex_bytes (l_data row) (K + 12) 20"
    unfolding sql_substring_def hex_bytes_def by (simp add: mult.commute)
  then have "buildFactoryChildAddressSelectExpression (Offset K) row
     = Some (''0x'' @ hex_bytes (l_data row) (K + 12) 20)"
    by (simp add: buildFactoryChildAddressSelectExpression_def)
  moreover have "set (hex_bytes (l_data row) (K + 12) 20) \<subseteq> set (l_data row)"
    unfolding hex_bytes_def
    by (meson set_take_subset set_drop_subset subset_trans)
  ultimately show ?thesis by (simp add: hex_bytes_def)
qed

theorem C6_offset_child_address_witness:
  "buildFactoryChildAddressSelectExpression (Offset 0) log_S5
     = Some ''0xaaaaaaaaaaaaaaaaaaaaaaaaaaaaaaaaaaaaaaaa''
   \<and> 2 + 2 * (0 + 32) \<le> length (l_data log_S5)
   \<and> length (''0x'' @ hex_bytes (l_data log_S5) 12 20) = 42"
  using C6_offset_child_address [of 0 log_S5]
  by (simp add: log_S5_def mk_log_def data_S5_def hex_bytes_def)

subsection \<open>C7: replaying an ingestion call\<close>

text \<open>
  C7, as stated, says that a second call of \<open>insertLogFilterInterval\<close> with the same
  arguments leaves the store exactly as the first call left it. The helper inserts one
  interval row per fragment on every call, so after the second call the fragment has the
  row \<open>[0, 5]\<close> twice.
\<close>

theorem C7_twice_differs_counterexample:
  "insertLogFilterInterval 1 filterA (mk_block 1 ''0xb1'' 5 5) [] [] (0, 5)
     (insertLogFilterInterval 1 filterA (mk_block 1 ''0xb1'' 5 5) [] [] (0, 5) empty_store)
   \<noteq> insertLogFilterInterval 1 filterA (mk_block 1 ''0xb1'' 5 5) [] [] (0, 5) empty_store"
proof -
  have 2: "length (logFilterIntervals (insertLogFilterInterval 1 filterA (mk_block 1 ''0xb1'' 5 5) [] [] (0, 5)
     (insertLogFilterInterval 1 filterA (mk_block 1 ''0xb1'' 5 5) [] [] (0, 5) empty_store))) = 2"
    by code_simp
  have 1: "length (logFilterIntervals (insertLogFilterInterval 1 filterA (mk_block 1 ''0xb1'' 5 5) [] [] (0, 5) empty_store)) = 1"
    by code_simp
  show ?thesis using 1 2 by auto
qed

text \<open>
  C7, amended: a second call of \<open>insertLogFilterInterval\<close> with the same arguments
  leaves the tables of blocks, transactions, logs and fragments (and every table the call
  does not write) exactly as the first call left them; to \<open>logFilterIntervals\<close> it
  appends, for every fragment of the filter, one more copy of the interval row that the
  first call inserted, so the set of stored interval rows is unchanged.
\<close>

theorem C7_replay_insertLogFilterInterval:
  "blocks (insertLogFilterInterval c f b ts ls iv (insertLogFilterInterval c f b ts ls iv s))
     = blocks (insertLogFilterInterval c f b ts ls iv s)
   \<and> transactions (insertLogFilterInterval c f b ts ls iv (insertLogFilterInterval c f b ts ls iv s))
     = transactions (insertLogFilterInterval c f b ts ls iv s)
   \<and> logs (insertLogFilterInterval c f b ts ls iv (insertLogFilterInterval c f b ts ls iv s))
     = logs (insertLogFilterInterval c f b ts ls iv s)
   \<and> logFilters (insertLogFilterInterval c f b ts ls iv (insertLogFilterInterval c f b ts ls iv s))
     = logFilters (insertLogFilterInterval c f b ts ls iv s)
   \<and> factories (insertLogFilterInterval c f b ts ls iv (insertLogFilterInterval c f b ts ls iv s))
     = factories (insertLogFilterInterval c f b ts ls iv s)
   \<and> factoryLogFilterIntervals
       (insertLogFilterInterval c f b ts ls iv (insertLogFilterInterval c f b ts ls iv s))
     = factoryLogFilterIntervals (insertLogFilterInterval c f b ts ls iv s)
   \<and> rpcRequestResults
       (insertLogFilterInterval c f b ts ls iv (insertLogFilterInterval c f b ts ls iv s))
     = rpcRequestResults (insertLogFilterInterval c f b ts ls iv s)
   \<and> logFilterIntervals
       (insertLogFilterInterval c f b ts ls iv (insertLogFilterInterval c f b ts ls iv s))
     = logFilterIntervals (insertLogFilterInterval c f b ts ls iv s)
       @ map (interval_row_of iv) (buildLogFilterFragments c f)
   \<and> set (logFilterIntervals
       (insertLogFilterInterval c f b ts ls iv (insertLogFilterInterval c f b ts ls iv s)))
     = set (logFilterIntervals (insertLogFilterInterval c f b ts ls iv s))"
proof -
  define fs where "fs = buildLogFilterFragments c f"
  define R where "R = insert_raw c b ts ls"
  define P where "P = foldl (insert_logFilterInterval_row iv)"
  define once where "once = P (R s) fs"
  define twice where "twice = P (R once) fs"
  have once: "insertLogFilterInterval c f b ts ls iv x = P (R x) fs" for x
    by (simp add: insertLogFilterInterval_def private_insertLogFilterInterval_def
        fs_def R_def P_def)
  have raw: "blocks (R once) = blocks (R s) \<and> transactions (R once) = transactions (R s)
      \<and> logs (R once) = logs (R s)"
  proof -
    have "blocks (R once) = blocks (R (R s)) \<and> transactions (R once) = transactions (R (R s))
      \<and> logs (R once) = logs (R (R s))"
      unfolding R_def by (rule insert_raw_raw_tables) (simp_all add: once_def P_def R_def)
    then show ?thesis by (simp add: R_def insert_raw_idem)
  qed
  have 1: "blocks twice = blocks once" "transactions twice = transactions once"
    "logs twice = logs once"
    using raw by (simp_all add: twice_def once_def P_def)
  have 2: "factories twice = factories once"
    "factoryLogFilterIntervals twice = factoryLogFilterIntervals once"
    "rpcRequestResults twice = rpcRequestResults once"
    by (simp_all add: twice_def once_def P_def R_def)
  have "set fs \<subseteq> set (logFilters (R once))"
    by (simp add: R_def once_def P_def foldl_insert_rows_logFilters_set)
  then have 3: "logFilters twice = logFilters once"
    by (simp add: twice_def P_def foldl_insert_rows_logFilters_present R_def)
  have 4: "logFilterIntervals twice = logFilterIntervals once @ map (interval_row_of iv) fs"
    by (simp add: twice_def P_def R_def)
  have "set (map (interval_row_of iv) fs) \<subseteq> set (logFilterIntervals once)"
    by (simp add: once_def P_def)
  with 4 have 5: "set (logFilterIntervals twice) = set (logFilterIntervals once)"
    by auto
  have 6: "map (interval_row_of iv) fs = map (interval_row_of iv) (buildLogFilterFragments c f)"
    by (simp add: fs_def)
  have t: "insertLogFilterInterval c f b ts ls iv once = twice"
    by (simp add: once twice_def)
  have o: "insertLogFilterInterval c f b ts ls iv s = once"
    by (simp add: once once_def)
  show ?thesis
    unfolding o t using 1 2 3 4 5 6 by simp
qed

theorem C7_replay_insertLogFilterInterval_witness:
  "logFilterIntervals
     (insertLogFilterInterval 1 filterA (mk_block 1 ''0xb1'' 5 5) [] [] (0, 5)
       (insertLogFilterInterval 1 filterA (mk_block 1 ''0xb1'' 5 5) [] [] (0, 5) empty_store))
     = [interval_row_of (0, 5) fragmentA, interval_row_of (0, 5) fragmentA]
   \<and> blocks
     (insertLogFilterInterval 1 filterA (mk_block 1 ''0xb1'' 5 5) [] [] (0, 5)
       (insertLogFilterInterval 1 filterA (mk_block 1 ''0xb1'' 5 5) [] [] (0, 5) empty_store))
     = [mk_block 1 ''0xb1'' 5 5]"
proof -
  have 1: "logFilterIntervals
      (insertLogFilterInterval 1 filterA (mk_block 1 ''0xb1'' 5 5) [] [] (0, 5) empty_store)
      = [interval_row_of (0, 5) fragmentA]"
    by code_simp
  have 2: "blocks
      (insertLogFilterInterval 1 filterA (mk_block 1 ''0xb1'' 5 5) [] [] (0, 5) empty_store)
      = [mk_block 1 ''0xb1'' 5 5]"
    by code_simp
  have 3: "buildLogFilterFragments 1 filterA = [fragmentA]"
    by code_simp
  show ?thesis
    using C7_replay_insertLogFilterInterval
      [of 1 filterA "mk_block 1 ''0xb1'' 5 5" "[]" "[]" "(0, 5)" empty_store] 1 2 3
    by simp
qed

subsection \<open>C8: the counts of a call\<close>



subsection \<open>C9: an inserted interval is covered\<close>



subsection \<open>C10: a block bound of zero\<close>

text \<open>
  C10: in \<open>getLogEvents\<close> a log filter or factory whose \<open>fromBlock\<close> or \<open>toBlock\<close>
  is 0 has that bound ignored: the comparisons built for it are those built without the
  bound, and the pages and counts of a request are the same with \<open>toBlock = 0\<close> as with
  no \<open>toBlock\<close>.
\<close>

theorem C10_zero_block_bound_ignored:
  "buildLogFilterCmprs (logFilter\<lparr>ls_toBlock := Some 0\<rparr>) row
     = buildLogFilterCmprs (logFilter\<lparr>ls_toBlock := None\<rparr>) row
   \<and> buildLogFilterCmprs (logFilter\<lparr>ls_fromBlock := Some 0\<rparr>) row
     = buildLogFilterCmprs (logFilter\<lparr>ls_fromBlock := None\<rparr>) row
   \<and> buildFactoryCmprs s (factory\<lparr>fs_toBlock := Some 0\<rparr>) row
     = buildFactoryCmprs s (factory\<lparr>fs_toBlock := None\<rparr>) row
   \<and> buildFactoryCmprs s (factory\<lparr>fs_fromBlock := Some 0\<rparr>) row
     = buildFactoryCmprs s (factory\<lparr>fs_fromBlock := None\<rparr>) row
   \<and> getLogEvents k s
       (rq\<lparr>rq_logFilters := before @ [logFilter\<lparr>ls_toBlock := Some 0\<rparr>] @ after\<rparr>)
     = getLogEvents k s
       (rq\<lparr>rq_logFilters := before @ [logFilter\<lparr>ls_toBlock := None\<rparr>] @ after\<rparr>)"
proof -
  have 1: "buildLogFilterCmprs (logFilter\<lparr>ls_toBlock := Some 0\<rparr>) r
     = buildLogFilterCmprs (logFilter\<lparr>ls_toBlock := None\<rparr>) r" for r
    by (simp add: buildLogFilterCmprs_def block_bound_cmprs_zero)
  have 2: "buildLogFilterCmprs (logFilter\<lparr>ls_fromBlock := Some 0\<rparr>) row
     = buildLogFilterCmprs (logFilter\<lparr>ls_fromBlock := None\<rparr>) row"
    by (simp add: buildLogFilterCmprs_def block_bound_cmprs_zero)
  have 3: "buildFactoryCmprs s (factory\<lparr>fs_toBlock := Some 0\<rparr>) row
     = buildFactoryCmprs s (factory\<lparr>fs_toBlock := None\<rparr>) row"
    by (simp add: buildFactoryCmprs_def block_bound_cmprs_zero)
  have 4: "buildFactoryCmprs s (factory\<lparr>fs_fromBlock := Some 0\<rparr>) row
     = buildFactoryCmprs s (factory\<lparr>fs_fromBlock := None\<rparr>) row"
    by (simp add: buildFactoryCmprs_def block_bound_cmprs_zero)
  have 5: "getLogEvents k s
       (rq\<lparr>rq_logFilters := before @ [logFilter\<lparr>ls_toBlock := Some 0\<rparr>] @ after\<rparr>)
     = getLogEvents k s
       (rq\<lparr>rq_logFilters := before @ [logFilter\<lparr>ls_toBlock := None\<rparr>] @ after\<rparr>)"
    by (rule getLogEvents_cong) (simp_all add: eventSourceNames_def included_def counted_def 1)
  show ?thesis using 1 2 3 4 5 by blast
qed

text \<open>
  The logs of scenario S3 are in block 7; a filter with \<open>toBlock = 0\<close> still selects
  both.
\<close>

theorem C10_zero_block_bound_ignored_witness:
  "getLogEvents 1 store_S3
     (request_S3\<lparr>pageSize := 5, rq_logFilters := [source_one\<lparr>ls_toBlock := Some 0\<rparr>]\<rparr>)
   = Inr ([\<lparr>events = [row_of ''one'' log_X, row_of ''one'' log_Y],
            metadata = \<lparr>pageEndsAtTimestamp = 100,
               counts = [(''one'', Some ''0xX'', 1), (''one'', Some ''0xY'', 1)]\<rparr>\<rparr>], True)
   \<and> block_number (row_of ''one'' log_X) = Some 7"
proof -
  have e: "getLogEvents 1 store_S3
     (request_S3\<lparr>pageSize := 5, rq_logFilters := [source_one\<lparr>ls_toBlock := None\<rparr>]\<rparr>)
   = Inr ([\<lparr>events = [row_of ''one'' log_X, row_of ''one'' log_Y],
            metadata = \<lparr>pageEndsAtTimestamp = 100,
               counts = [(''one'', Some ''0xX'', 1), (''one'', Some ''0xY'', 1)]\<rparr>\<rparr>], True)"
    by code_simp
  have n: "block_number (row_of ''one'' log_X) = Some 7"
    by (simp add: block_number_def row_of_def mk_block_def)
  show ?thesis
    using C10_zero_block_bound_ignored
      [where logFilter = source_one and k = 1 and s = store_S3
         and rq = "request_S3\<lparr>pageSize := 5\<rparr>" and before = "[]" and after = "[]"]
      e n
    by simp
qed

end
